theory Spec2Isabelle
  imports Complex_Main "HOL-Library.AList"
begin

section \<open>JavaScript values used by xyz2sgf.js\<close>

text \<open>
  The converter is written in JavaScript, so every number is an IEEE double that may be
  \<open>NaN\<close> or infinite, and \<open>parseInt\<close>/\<open>parseFloat\<close> answer \<open>NaN\<close> instead of raising.
  Several code paths of the converter depend on this, so numbers are modelled by the type
  \<open>jsnum\<close>: \<open>NaN\<close>, the two infinities, or a finite value carried as an exact rational.
  Rounding to binary64 and the sign of zero are not modelled; the program only compares
  numbers with small integer constants, adds small integers, divides by 10 and adds 0.5.

  Strings are \<open>string\<close>: the model covers the texts whose UTF-16 code units are all below
  256, a \<open>char\<close> being the code unit. \<open>toUpperCase\<close> can leave that range, so its result is
  a list of code units (\<open>nat list\<close>).
\<close>

datatype jsnum = NaN | Num rat | PosInf | NegInf

datatype error = ValueError | BadBoardSize | ParserFail | UnknownFormat | TypeError

fun js_lt :: "jsnum \<Rightarrow> jsnum \<Rightarrow> bool" where
  "js_lt (Num a) (Num b) = (a < b)"
| "js_lt (Num a) PosInf = True"
| "js_lt NegInf (Num b) = True"
| "js_lt NegInf PosInf = True"
| "js_lt _ _ = False"

definition js_gt :: "jsnum \<Rightarrow> jsnum \<Rightarrow> bool" where
  "js_gt x y = js_lt y x"

text \<open>Strict equality \<open>===\<close> on numbers: \<open>NaN\<close> is different from everything.\<close>

definition js_eq :: "jsnum \<Rightarrow> jsnum \<Rightarrow> bool" where
  "js_eq x y = (x \<noteq> NaN \<and> x = y)"

definition js_ge :: "jsnum \<Rightarrow> jsnum \<Rightarrow> bool" where
  "js_ge x y = (js_lt y x \<or> js_eq x y)"

definition js_le :: "jsnum \<Rightarrow> jsnum \<Rightarrow> bool" where
  "js_le x y = (js_lt x y \<or> js_eq x y)"

fun js_neg :: "jsnum \<Rightarrow> jsnum" where
  "js_neg NaN = NaN"
| "js_neg (Num a) = Num (- a)"
| "js_neg PosInf = NegInf"
| "js_neg NegInf = PosInf"

fun js_add :: "jsnum \<Rightarrow> jsnum \<Rightarrow> jsnum" where
  "js_add (Num a) (Num b) = Num (a + b)"
| "js_add NaN _ = NaN"
| "js_add _ NaN = NaN"
| "js_add PosInf NegInf = NaN"
| "js_add NegInf PosInf = NaN"
| "js_add PosInf _ = PosInf"
| "js_add NegInf _ = NegInf"
| "js_add (Num a) y = y"

definition js_sub :: "jsnum \<Rightarrow> jsnum \<Rightarrow> jsnum" where
  "js_sub x y = js_add x (js_neg y)"

text \<open>Division; the sign of a zero divisor is not tracked (the program divides by 10 and 2 only).\<close>

fun js_div :: "jsnum \<Rightarrow> jsnum \<Rightarrow> jsnum" where
  "js_div (Num a) (Num b) =
     (if b = 0 then (if a = 0 then NaN else if 0 < a then PosInf else NegInf) else Num (a / b))"
| "js_div NaN _ = NaN"
| "js_div _ NaN = NaN"
| "js_div (Num a) _ = Num 0"
| "js_div PosInf (Num b) = (if b < 0 then NegInf else PosInf)"
| "js_div NegInf (Num b) = (if b < 0 then PosInf else NegInf)"
| "js_div _ _ = NaN"

text \<open>Rounding towards zero, as in the remainder operator and in \<open>ToUint16\<close>.\<close>

definition trunc_rat :: "rat \<Rightarrow> int" where
  "trunc_rat q = (if q < 0 then - \<lfloor>- q\<rfloor> else \<lfloor>q\<rfloor>)"

fun js_mod :: "jsnum \<Rightarrow> jsnum \<Rightarrow> jsnum" where
  "js_mod (Num a) (Num b) = (if b = 0 then NaN else Num (a - b * of_int (trunc_rat (a / b))))"
| "js_mod (Num a) PosInf = Num a"
| "js_mod (Num a) NegInf = Num a"
| "js_mod _ _ = NaN"

fun js_floor :: "jsnum \<Rightarrow> jsnum" where
  "js_floor (Num a) = Num (of_int \<lfloor>a\<rfloor>)"
| "js_floor x = x"

text \<open>
  \<open>String.fromCharCode(n)\<close> applies \<open>ToUint16\<close>: \<open>NaN\<close> and the infinities give code unit 0,
  a finite number is truncated and reduced modulo \<open>2^16\<close>. The converter reaches it only with
  \<open>NaN\<close> or with a value between 97 and 122, so the 8-bit \<open>char\<close> holds every result.
\<close>

fun ToUint16 :: "jsnum \<Rightarrow> int" where
  "ToUint16 (Num a) = trunc_rat a mod 65536"
| "ToUint16 _ = 0"

definition fromCharCode :: "jsnum \<Rightarrow> char" where
  "fromCharCode n = char_of (ToUint16 n)"

section \<open>Coordinate encoder and value escaping\<close>

definition stringFromPoint :: "jsnum \<Rightarrow> jsnum \<Rightarrow> error + string" where
  "stringFromPoint x y =
     (if js_lt x (Num 1) \<or> js_gt x (Num 26) \<or> js_lt y (Num 1) \<or> js_gt y (Num 26)
      then Inl ValueError
      else Inr [fromCharCode (js_add x (Num 96)), fromCharCode (js_add y (Num 96))])"

text \<open>\<open>s.replace(/([\]\\])/g, "\\$1")\<close>: every \<open>]\<close> and every backslash gets a backslash in front.\<close>

fun safeString :: "string \<Rightarrow> string" where
  "safeString [] = []"
| "safeString (c # cs) =
     (if c = CHR '']'' \<or> c = CHR 0x5C then CHR 0x5C # c # safeString cs else c # safeString cs)"

section \<open>The property tree\<close>

text \<open>
  A \<open>Node\<close> owns a JavaScript \<open>Map\<close> from keys to arrays of strings and an array of children.
  A \<open>Map\<close> iterates in insertion order, \<open>set\<close> on a present key keeps its position and
  \<open>delete\<close> removes the entry: this is an association list with \<open>AList.update\<close> and
  \<open>AList.delete\<close>. The \<open>parent\<close> field is written by the constructor and never read.
\<close>

type_synonym props = "(string \<times> string list) list"

datatype node = Node (properties: props) (children: "node list")

definition has :: "props \<Rightarrow> string \<Rightarrow> bool" where
  "has ps key = (map_of ps key \<noteq> None)"

definition safeCommit :: "string \<Rightarrow> string \<Rightarrow> props \<Rightarrow> props" where
  "safeCommit key val ps =
     (let safe_s = safeString val
      in if safe_s \<noteq> [] then AList.update key [safe_s] ps else AList.delete key ps)"

definition addValue :: "string \<Rightarrow> string \<Rightarrow> props \<Rightarrow> props" where
  "addValue key val ps =
     (let ps1 = (if \<not> has ps key then AList.update key [] ps else ps);
          vs = (case map_of ps1 key of Some vs \<Rightarrow> vs | None \<Rightarrow> [])
      in if val \<notin> set vs then AList.update key (vs @ [val]) ps1 else ps1)"

definition setValue :: "string \<Rightarrow> string \<Rightarrow> props \<Rightarrow> props" where
  "setValue key val ps = AList.update key [val] ps"


section \<open>Numbers to strings and strings to numbers\<close>

text \<open>
  \<open>Number.prototype.toString\<close>. A finite value is printed as its exact decimal expansion
  (integer part, then at most 20 fraction digits). This is what JavaScript prints for the
  numbers of at most 15 significant digits and magnitude between \<open>10^-6\<close> and \<open>10^21\<close>;
  the exponent notation and the shortest round-trip digits of other doubles are not modelled.
\<close>

fun string_of_nat :: "nat \<Rightarrow> string" where
  "string_of_nat n =
     (if n < 10 then [char_of (48 + n)] else string_of_nat (n div 10) @ [char_of (48 + n mod 10)])"

fun frac_digits :: "nat \<Rightarrow> rat \<Rightarrow> string" where
  "frac_digits 0 q = []"
| "frac_digits (Suc fuel) q =
     (if q = 0 then []
      else char_of (48 + nat \<lfloor>q * 10\<rfloor>) # frac_digits fuel (q * 10 - of_int \<lfloor>q * 10\<rfloor>))"

fun jsnum_toString :: "jsnum \<Rightarrow> string" where
  "jsnum_toString NaN = ''NaN''"
| "jsnum_toString PosInf = ''Infinity''"
| "jsnum_toString NegInf = ''-Infinity''"
| "jsnum_toString (Num q) =
     (let a = \<bar>q\<bar>; f = a - of_int \<lfloor>a\<rfloor>
      in (if q < 0 then ''-'' else []) @ string_of_nat (nat \<lfloor>a\<rfloor>)
         @ (if f = 0 then [] else ''.'' @ frac_digits 20 f))"

text \<open>
  White space as \<open>trim\<close>, \<open>parseInt\<close>, \<open>parseFloat\<close> and the regular expression class
  \<open>\s\<close> see it, among the code units below 256: TAB, LF, VT, FF, CR, SP and NBSP.
\<close>

definition is_space :: "char \<Rightarrow> bool" where
  "is_space c = (of_char c \<in> {9, 10, 11, 12, 13, 32, 160 :: nat})"

definition digit_value :: "nat \<Rightarrow> char \<Rightarrow> nat option" where
  "digit_value radix c =
     (let n = (of_char c :: nat);
          v = (if 48 \<le> n \<and> n \<le> 57 then Some (n - 48)
               else if 97 \<le> n \<and> n \<le> 122 then Some (n - 87)
               else if 65 \<le> n \<and> n \<le> 90 then Some (n - 55)
               else None)
      in case v of Some d \<Rightarrow> (if d < radix then Some d else None) | None \<Rightarrow> None)"

definition is_digit :: "char \<Rightarrow> bool" where
  "is_digit c = (digit_value 10 c \<noteq> None)"

definition digits_value :: "nat \<Rightarrow> string \<Rightarrow> nat" where
  "digits_value radix z = foldl (\<lambda>acc c. acc * radix + (case digit_value radix c of Some d \<Rightarrow> d | None \<Rightarrow> 0)) 0 z"

text \<open>
  A mathematical value becomes a Number: beyond the largest double it is an infinity
  (everything from \<open>2^1024 - 2^970\<close> on rounds up to it), and below half the smallest
  positive double it is zero.
\<close>

definition js_number :: "rat \<Rightarrow> jsnum" where
  "js_number q =
     (if 2 ^ 1024 - 2 ^ 970 \<le> q then PosInf
      else if q \<le> - (2 ^ 1024 - 2 ^ 970) then NegInf
      else if \<bar>q\<bar> \<le> 1 / 2 ^ 1075 then Num 0
      else Num q)"

text \<open>
  \<open>parseInt(s)\<close> without a radix: leading white space and one sign are skipped, \<open>0x\<close> or
  \<open>0X\<close> selects base 16, the longest run of digits is read, and no digit at all is \<open>NaN\<close>.
\<close>

definition strip_sign :: "string \<Rightarrow> bool \<times> string" where
  "strip_sign s =
     (case s of
        c # t \<Rightarrow> if c = CHR ''-'' then (True, t) else if c = CHR ''+'' then (False, t) else (False, s)
      | [] \<Rightarrow> (False, []))"

definition parseInt :: "string \<Rightarrow> jsnum" where
  "parseInt s =
     (let (neg, s2) = strip_sign (dropWhile is_space s);
          (radix, s3) =
             (case s2 of
                a # b # t \<Rightarrow>
                  if a = CHR ''0'' \<and> (b = CHR ''x'' \<or> b = CHR ''X'') then (16, t) else (10, s2)
              | _ \<Rightarrow> (10, s2));
          z = takeWhile (\<lambda>c. digit_value radix c \<noteq> None) s3
      in if z = [] then NaN
         else js_number ((if neg then - 1 else 1) * of_nat (digits_value radix z)))"

text \<open>
  \<open>parseFloat(s)\<close>: leading white space and one sign are skipped, then \<open>Infinity\<close> or the
  longest decimal literal (digits, an optional fraction, an optional exponent that needs
  at least one digit) is read; without any digit the result is \<open>NaN\<close>.
\<close>

definition startsWith :: "'a list \<Rightarrow> 'a list \<Rightarrow> bool" where
  "startsWith s p = (take (length p) s = p)"

definition endsWith :: "string \<Rightarrow> string \<Rightarrow> bool" where
  "endsWith s p = (length p \<le> length s \<and> drop (length s - length p) s = p)"

definition exponent_part :: "string \<Rightarrow> int" where
  "exponent_part r =
     (case r of
        c # t \<Rightarrow>
          if c = CHR ''e'' \<or> c = CHR ''E''
          then (let (eneg, t2) = strip_sign t; ed = takeWhile is_digit t2
                in if ed = [] then 0
                   else if eneg then - int (digits_value 10 ed) else int (digits_value 10 ed))
          else 0
      | [] \<Rightarrow> 0)"

definition parseFloat :: "string \<Rightarrow> jsnum" where
  "parseFloat s =
     (let (neg, s2) = strip_sign (dropWhile is_space s)
      in if startsWith s2 ''Infinity'' then (if neg then NegInf else PosInf)
         else
           let ip = takeWhile is_digit s2;
               r1 = dropWhile is_digit s2;
               (fp, r2) =
                  (case r1 of
                     c # t \<Rightarrow>
                       if c = CHR ''.'' then (takeWhile is_digit t, dropWhile is_digit t)
                       else ([], r1)
                   | [] \<Rightarrow> ([], []))
           in if ip = [] \<and> fp = [] then NaN
              else
                let m = of_nat (digits_value 10 (ip @ fp));
                    e10 = exponent_part r2 - int (length fp);
                    v = (if 0 \<le> e10 then m * 10 ^ nat e10 else m / 10 ^ nat (- e10))
                in js_number (if neg then - v else v))"

text \<open>\<open>Number.isInteger\<close>, \<open>Number.isFinite\<close>, and the truth value of a number in a condition.\<close>

fun isInteger :: "jsnum \<Rightarrow> bool" where
  "isInteger (Num q) = (q = of_int \<lfloor>q\<rfloor>)"
| "isInteger _ = False"

fun isFinite :: "jsnum \<Rightarrow> bool" where
  "isFinite (Num q) = True"
| "isFinite _ = False"

fun truthy :: "jsnum \<Rightarrow> bool" where
  "truthy (Num q) = (q \<noteq> 0)"
| "truthy NaN = False"
| "truthy _ = True"

section \<open>String operations\<close>

text \<open>
  \<open>undefined\<close> (a missing array element) is \<open>None\<close>. \<open>parseInt\<close> and \<open>parseFloat\<close> convert
  their argument to a string first, and \<open>undefined\<close> becomes the text \<open>undefined\<close>.
\<close>

fun item :: "'a list \<Rightarrow> nat \<Rightarrow> 'a option" where
  "item [] i = None"
| "item (x # xs) 0 = Some x"
| "item (x # xs) (Suc i) = item xs i"

definition ToString :: "string option \<Rightarrow> string" where
  "ToString v = (case v of Some s \<Rightarrow> s | None \<Rightarrow> ''undefined'')"

text \<open>A string in a condition is true when it is defined and not empty.\<close>

definition truthy_str :: "'a list option \<Rightarrow> bool" where
  "truthy_str v = (case v of Some s \<Rightarrow> s \<noteq> [] | None \<Rightarrow> False)"

definition trim :: "string \<Rightarrow> string" where
  "trim s = rev (dropWhile is_space (rev (dropWhile is_space s)))"

text \<open>
  A string as the list of its code units, and back (used on code units below 256 only).
\<close>

definition units :: "string \<Rightarrow> nat list" where
  "units s = map of_char s"

definition of_units :: "nat list \<Rightarrow> string" where
  "of_units u = map char_of u"

text \<open>
  \<open>toUpperCase\<close>, code unit by code unit, for the code units below 256: the letters
  \<open>a\<close> to \<open>z\<close> and U+00E0 to U+00FE (without the division sign U+00F7) move down by 32,
  the micro sign U+00B5 becomes U+039C, the sharp s U+00DF becomes the two letters \<open>SS\<close>,
  and U+00FF becomes U+0178; every other code unit stays.
\<close>

definition upper_units :: "nat \<Rightarrow> nat list" where
  "upper_units n =
     (if 97 \<le> n \<and> n \<le> 122 then [n - 32]
      else if n = 181 then [924]
      else if n = 223 then [83, 83]
      else if 224 \<le> n \<and> n \<le> 254 \<and> n \<noteq> 247 then [n - 32]
      else if n = 255 then [376]
      else [n])"

definition toUpperCase :: "string \<Rightarrow> nat list" where
  "toUpperCase s = concat (map (\<lambda>c. upper_units (of_char c)) s)"

text \<open>\<open>s.split(c)\<close> for a one-character separator: never an empty array.\<close>

fun split :: "'a \<Rightarrow> 'a list \<Rightarrow> 'a list list" where
  "split c [] = [[]]"
| "split c (x # xs) =
     (if x = c then [] # split c xs
      else (case split c xs of y # ys \<Rightarrow> (x # y) # ys | [] \<Rightarrow> [[x]]))"

text \<open>\<open>s.split(/\s+/)\<close>: the separators are the maximal runs of white space.\<close>

function split_ws :: "string \<Rightarrow> string list" where
  "split_ws [] = [[]]"
| "split_ws (x # xs) =
     (if is_space x then [] # split_ws (dropWhile is_space xs)
      else (case split_ws xs of y # ys \<Rightarrow> (x # y) # ys | [] \<Rightarrow> [[x]]))"
  by pat_completeness auto
termination
  by (relation "measure length") (auto simp: length_dropWhile_le less_Suc_eq_le)

text \<open>
  \<open>s.slice(a, b)\<close> and \<open>s.slice(a)\<close>: a negative index counts from the end, and both are
  clamped to the string.
\<close>

definition slice_index :: "nat \<Rightarrow> int \<Rightarrow> nat" where
  "slice_index len i = (if i < 0 then nat (max (int len + i) 0) else min (nat i) len)"

definition slice :: "'a list \<Rightarrow> int \<Rightarrow> int \<Rightarrow> 'a list" where
  "slice s a b =
     (let i0 = slice_index (length s) a; i1 = slice_index (length s) b
      in take (i1 - i0) (drop i0 s))"

definition slice_from :: "string \<Rightarrow> int \<Rightarrow> string" where
  "slice_from s a = drop (slice_index (length s) a) s"

text \<open>
  \<open>s.charAt(i)\<close> is a string of one character, or the empty string out of range;
  \<open>s.charCodeAt(i)\<close> is the code unit at \<open>i\<close>, or \<open>NaN\<close> out of range. The program calls
  \<open>charCodeAt\<close> on upper-cased text only, so it is defined on lists of code units.
\<close>

definition charAt :: "'a list \<Rightarrow> int \<Rightarrow> 'a list" where
  "charAt s i = (if 0 \<le> i \<and> nat i < length s then [s ! nat i] else [])"

definition charCodeAt :: "nat list \<Rightarrow> int \<Rightarrow> jsnum" where
  "charCodeAt s i = (if 0 \<le> i \<and> nat i < length s then Num (of_nat (s ! nat i)) else NaN)"

text \<open>\<open>/lit/.test(s)\<close> for a literal pattern: \<open>lit\<close> occurs somewhere in \<open>s\<close>.\<close>

fun contains :: "string \<Rightarrow> string \<Rightarrow> bool" where
  "contains [] lit = (lit = [])"
| "contains (x # xs) lit = (startsWith (x # xs) lit \<or> contains xs lit)"

text \<open>
  \<open>s.match(/pre(\d+)suf/)\<close> for literal \<open>pre\<close> and \<open>suf\<close>: the capture of the leftmost match.
  At a position where \<open>pre\<close> is found, \<open>\d+\<close> can only stand for the whole run of digits that
  follows (a shorter run is followed by a digit, not by \<open>suf\<close>, whose first character is
  not a digit in any pattern of the program).
\<close>

fun match_digits :: "string \<Rightarrow> string \<Rightarrow> string \<Rightarrow> string option" where
  "match_digits pre suf [] = None"
| "match_digits pre suf (x # xs) =
     (let rest = drop (length pre) (x # xs); ds = takeWhile is_digit rest
      in if startsWith (x # xs) pre \<and> ds \<noteq> [] \<and> startsWith (dropWhile is_digit rest) suf
         then Some ds
         else match_digits pre suf xs)"

text \<open>\<open>s.match(/C(\d\d\d\d):(\d\d):(\d\d)/)\<close>: the three captures of the leftmost match.\<close>

fun match_date :: "string \<Rightarrow> (string \<times> string \<times> string) option" where
  "match_date [] = None"
| "match_date (x # xs) =
     (if x = CHR ''C'' \<and> 10 \<le> length xs \<and> list_all is_digit (take 4 xs) \<and> xs ! 4 = CHR '':''
         \<and> list_all is_digit (take 2 (drop 5 xs)) \<and> xs ! 7 = CHR '':''
         \<and> list_all is_digit (take 2 (drop 8 xs))
      then Some (take 4 xs, take 2 (drop 5 xs), take 2 (drop 8 xs))
      else match_date xs)"

section \<open>Handicap points\<close>

text \<open>
  \<open>points\<close> is a JavaScript \<open>Set\<close> of freshly built arrays \<open>[x, y]\<close>. A \<open>Set\<close> compares
  objects by identity, so \<open>add\<close> never finds the new array present, and it iterates in
  insertion order: the set is the list of the added pairs, repeated coordinates included.
\<close>

definition includes_num :: "jsnum list \<Rightarrow> jsnum \<Rightarrow> bool" where
  "includes_num xs v = (\<exists>x \<in> set xs. js_eq x v)"

definition handicapPoints :: "jsnum \<Rightarrow> jsnum \<Rightarrow> bool \<Rightarrow> (jsnum \<times> jsnum) list" where
  "handicapPoints boardsize handicap0 tygem =
     (if js_lt boardsize (Num 4) then []
      else
        let handicap = (if js_gt handicap0 (Num 9) then Num 9 else handicap0);
            d = (if js_lt boardsize (Num 13) then Num 2 else Num 3);
            lo = js_add (Num 1) d;
            hi = js_sub boardsize d;
            points2 = (if js_ge handicap (Num 2) then [(hi, lo), (lo, hi)] else []);
            points3 = points2 @
               (if js_ge handicap (Num 3) then [if tygem then (lo, lo) else (hi, hi)] else []);
            points4 = points3 @
               (if js_ge handicap (Num 4) then [if tygem then (hi, hi) else (lo, lo)] else [])
        in if js_eq (js_mod boardsize (Num 2)) (Num 0) then points4
           else
             let mid = js_floor (js_div (js_add boardsize (Num 1)) (Num 2));
                 points5 = points4 @
                    (if includes_num [Num 5, Num 7, Num 9] handicap then [(mid, mid)] else []);
                 points6 = points5 @
                    (if includes_num [Num 6, Num 7, Num 8, Num 9] handicap
                     then [(lo, mid), (hi, mid)] else [])
             in points6 @
                  (if includes_num [Num 8, Num 9] handicap then [(mid, lo), (mid, hi)] else []))"

section \<open>Trees under construction\<close>

text \<open>
  Each parser starts with \<open>node = root\<close> and only ever executes \<open>node = new Node(node)\<close>:
  the new node becomes the single child of the current last node. The tree under
  construction is therefore the root followed by a chain of descendants, kept as the
  properties of the root and the list of the properties of the later nodes in creation
  order. \<open>build_chain\<close> gives the tree they stand for.
\<close>

fun build_chain :: "props \<Rightarrow> props list \<Rightarrow> node" where
  "build_chain ps [] = Node ps []"
| "build_chain ps (q # qs) = Node ps [build_chain q qs]"

text \<open>
  The end of every parser: \<open>if (root.children.length === 0) throw new ParserFail()\<close>,
  otherwise the root is returned.
\<close>

definition finish :: "props \<Rightarrow> props list \<Rightarrow> error + node" where
  "finish ps moves = (if moves = [] then Inl ParserFail else Inr (build_chain ps moves))"

text \<open>
  \<open>for (const point of stones) root.addValue("AB", stringFromPoint(point[0], point[1]))\<close>;
  an exception of \<open>stringFromPoint\<close> is not caught here.
\<close>

fun add_stones :: "(jsnum \<times> jsnum) list \<Rightarrow> props \<Rightarrow> error + props" where
  "add_stones [] ps = Inr ps"
| "add_stones ((x, y) # pts) ps =
     (case stringFromPoint x y of
        Inl e \<Rightarrow> Inl e
      | Inr v \<Rightarrow> add_stones pts (addValue ''AB'' v ps))"

section \<open>Parser B: parseNgf\<close>

text \<open>
  The fields read from fixed lines, up to the \<open>Main parser\<close> comment: the result is the
  property map of the root, or the exception thrown on the way.
\<close>

definition ngf_root :: "string list \<Rightarrow> error + props" where
  "ngf_root lines =
     (let boardsize0 = parseInt (ToString (item lines 1));
          boardsize = (if isInteger boardsize0 then Num 19 else boardsize0);
          handicap0 = parseInt (ToString (item lines 5));
          handicap = (if isInteger handicap0 then Num 0 else handicap0);
          pw = (if truthy_str (item lines 2)
                then (case split_ws (trim (ToString (item lines 2))) of t # _ \<Rightarrow> t | [] \<Rightarrow> [])
                else []);
          pb = (if truthy_str (item lines 3)
                then (case split_ws (trim (ToString (item lines 3))) of t # _ \<Rightarrow> t | [] \<Rightarrow> [])
                else []);
          rawdate = (if truthy_str (item lines 8) then slice (ToString (item lines 8)) 0 8 else []);
          komi0 = parseFloat (ToString (item lines 7));
          komi1 = (if isFinite komi0 then Num 0 else komi0);
          komi = (if js_eq handicap (Num 0) \<and> js_eq (parseInt (jsnum_toString komi1)) komi1
                  then js_add komi1 (Num (1 / 2)) else komi1);
          re = (if truthy_str (item lines 10)
                then (if contains (ToString (item lines 10)) ''hite win'' then ''W+''
                      else if contains (ToString (item lines 10)) ''lack win'' then ''B+''
                      else [])
                else [])
      in if js_lt handicap (Num 0) \<or> js_gt handicap (Num 9) then Inl ParserFail
         else
           let ps1 = setValue ''SZ'' (jsnum_toString boardsize) [];
               stones =
                 (if js_ge handicap (Num 2)
                  then add_stones (handicapPoints boardsize handicap True)
                         (setValue ''HA'' (jsnum_toString handicap) ps1)
                  else Inr ps1)
           in case stones of
                Inl e \<Rightarrow> Inl e
              | Inr ps2 \<Rightarrow>
                  let ps3 = (if truthy komi then setValue ''KM'' (jsnum_toString komi) ps2 else ps2);
                      ps4 = (if length rawdate = 8 \<and> list_all is_digit rawdate
                             then setValue ''DT''
                                    (slice rawdate 0 4 @ ''-'' @ slice rawdate 4 6 @ ''-''
                                      @ slice rawdate 6 8) ps3
                             else ps3);
                      ps5 = (if pw \<noteq> [] then safeCommit ''PW'' pw ps4 else ps4);
                      ps6 = (if pb \<noteq> [] then safeCommit ''PB'' pb ps5 else ps5)
                  in Inr (if re \<noteq> [] then setValue ''RE'' re ps6 else ps6))"

text \<open>One round of the main loop: \<open>moves\<close> are the nodes created so far.\<close>

definition ngf_line :: "props list \<Rightarrow> string \<Rightarrow> props list" where
  "ngf_line moves line0 =
     (let line = toUpperCase (trim line0)
      in if 7 \<le> length line \<and> slice line 0 2 = units ''PM''
            \<and> (charAt line 4 = units ''B'' \<or> charAt line 4 = units ''W'')
         then
           (let key = of_units (charAt line 4);
                x = js_sub (charCodeAt line 5) (Num 65);
                y = js_sub (charCodeAt line 6) (Num 65)
            in case stringFromPoint x y of
                 Inr val \<Rightarrow> moves @ [setValue key val []]
               | Inl e \<Rightarrow> moves)
         else moves)"

definition parseNgf :: "string \<Rightarrow> error + node" where
  "parseNgf ngf =
     (let lines = split (CHR 0x0A) (trim ngf)
      in case ngf_root lines of
           Inl e \<Rightarrow> Inl e
         | Inr ps \<Rightarrow> finish ps (foldl ngf_line [] lines))"

section \<open>Parser A: parseGib\<close>

definition gibMakeResult :: "jsnum \<Rightarrow> jsnum \<Rightarrow> string" where
  "gibMakeResult grlt zipsu =
     (if grlt = Num 3 then ''B+R''
      else if grlt = Num 4 then ''W+R''
      else if grlt = Num 7 then ''B+T''
      else if grlt = Num 8 then ''W+T''
      else if js_eq grlt (Num 0) \<or> js_eq grlt (Num 1)
      then (if js_eq grlt (Num 0) then ''B'' else ''W'') @ ''+''
             @ jsnum_toString (js_div zipsu (Num 10))
      else [])"

text \<open>The two regular expressions are given by the literal texts around \<open>(\d+)\<close>.\<close>

definition gibGetResult :: "string \<Rightarrow> string \<times> string \<Rightarrow> string \<times> string \<Rightarrow> string" where
  "gibGetResult line grltRegex zipsuRegex =
     (case match_digits (fst grltRegex) (snd grltRegex) line of
        None \<Rightarrow> []
      | Some g \<Rightarrow>
          (case match_digits (fst zipsuRegex) (snd zipsuRegex) line of
             None \<Rightarrow> []
           | Some z \<Rightarrow> gibMakeResult (parseInt g) (parseInt z)))"

definition parsePlayerName :: "string \<Rightarrow> string \<times> string" where
  "parsePlayerName raw =
     (let foo = split (CHR ''('') raw;
          (name, rank) =
             (case foo of
                [f0, f1] \<Rightarrow>
                  if charAt f1 (int (length f1) - 1) = '')''
                  then (trim f0, slice f1 0 (- 1)) else ([], [])
              | _ \<Rightarrow> ([], []))
      in if name \<noteq> [] then (name, rank) else (raw, []))"

text \<open>
  The state of the loop of \<open>parseGib\<close>: the properties of the root and the nodes created
  so far (\<open>node !== root\<close> holds when there is one).
\<close>

record tree =
  root_props :: props
  nodes :: "props list"

definition gib_player :: "string \<Rightarrow> string \<Rightarrow> string \<Rightarrow> string \<Rightarrow> props \<Rightarrow> props" where
  "gib_player tag namekey rankkey line ps =
     (if startsWith line tag \<and> endsWith line [CHR 0x5C, CHR '']'']
      then
        (let s = slice line 16 (- 2);
             (name, rank) = parsePlayerName s;
             ps1 = (if name \<noteq> [] then safeCommit namekey name ps else ps)
         in if rank \<noteq> [] then safeCommit rankkey rank ps1 else ps1)
      else ps)"

definition gib_infomain :: "string \<Rightarrow> props \<Rightarrow> props" where
  "gib_infomain line ps =
     (if startsWith line (CHR 0x5C # ''[GAMEINFOMAIN='')
      then
        (let ps1 =
               (if \<not> has ps ''RE''
                then (let result = gibGetResult line (''GRLT:'', '','') (''ZIPSU:'', '','')
                      in if result \<noteq> [] then setValue ''RE'' result ps else ps)
                else ps)
         in if \<not> has ps1 ''KM''
            then (case match_digits ''GONGJE:'' '','' line of
                    Some m \<Rightarrow>
                      (let komi = js_div (parseInt m) (Num 10)
                       in if truthy komi then setValue ''KM'' (jsnum_toString komi) ps1 else ps1)
                  | None \<Rightarrow> ps1)
            else ps1)
      else ps)"

definition gib_tag :: "string \<Rightarrow> props \<Rightarrow> props" where
  "gib_tag line ps =
     (if startsWith line (CHR 0x5C # ''[GAMETAG='')
      then
        (let ps1 =
               (if \<not> has ps ''DT''
                then (case match_date line of
                        Some (y, m, d) \<Rightarrow> setValue ''DT'' (y @ ''-'' @ m @ ''-'' @ d) ps
                      | None \<Rightarrow> ps)
                else ps);
             ps2 =
               (if \<not> has ps1 ''RE''
                then (let result = gibGetResult line ('',W'', '','') ('',Z'', '','')
                      in if result \<noteq> [] then setValue ''RE'' result ps1 else ps1)
                else ps1)
         in if \<not> has ps2 ''KM''
            then (case match_digits '',G'' '','' line of
                    Some m \<Rightarrow> setValue ''KM'' (jsnum_toString (js_div (parseInt m) (Num 10))) ps2
                  | None \<Rightarrow> ps2)
            else ps2)
      else ps)"

text \<open>
  The \<open>INI\<close> block. The boolean of the result says whether \<open>continue\<close> was executed, which
  skips the rest of the loop body.
\<close>

definition gib_ini :: "string \<Rightarrow> tree \<Rightarrow> error + (bool \<times> tree)" where
  "gib_ini line t =
     (if slice line 0 3 = ''INI''
      then
        (if nodes t \<noteq> [] then Inl ParserFail
         else
           let setup = split_ws (trim line)
           in if truthy_str (item setup 3)
              then
                (let handicap = parseInt (ToString (item setup 3))
                 in if js_lt handicap (Num 0) \<or> js_gt handicap (Num 9) then Inl ParserFail
                    else if js_ge handicap (Num 2)
                    then (case add_stones (handicapPoints (Num 19) handicap True)
                                 (setValue ''HA'' (jsnum_toString handicap) (root_props t)) of
                            Inl e \<Rightarrow> Inl e
                          | Inr ps \<Rightarrow> Inr (False, t\<lparr>root_props := ps\<rparr>))
                    else Inr (False, t))
              else Inr (True, t))
      else Inr (False, t))"

definition gib_sto :: "string \<Rightarrow> tree \<Rightarrow> tree" where
  "gib_sto line t =
     (if slice line 0 3 = ''STO''
      then
        (let move = split_ws (trim line);
             key = (if item move 3 = Some ''1'' then ''B'' else ''W'')
         in if truthy_str (item move 4)
            then
              (let x = js_add (parseInt (ToString (item move 4))) (Num 1)
               in if truthy_str (item move 5)
                  then
                    (let y = js_add (parseInt (ToString (item move 5))) (Num 1)
                     in case stringFromPoint x y of
                          Inr val \<Rightarrow> t\<lparr>nodes := nodes t @ [setValue key val []]\<rparr>
                        | Inl e \<Rightarrow> t)
                  else t)
            else t)
      else t)"

definition gib_line :: "string \<Rightarrow> tree \<Rightarrow> error + tree" where
  "gib_line line0 t =
     (let line = trim line0;
          ps1 = gib_player (CHR 0x5C # ''[GAMEBLACKNAME='') ''PB'' ''BR'' line (root_props t);
          ps2 = gib_player (CHR 0x5C # ''[GAMEWHITENAME='') ''PW'' ''WR'' line ps1;
          ps3 = gib_infomain line ps2;
          ps4 = gib_tag line ps3
      in case gib_ini line (t\<lparr>root_props := ps4\<rparr>) of
           Inl e \<Rightarrow> Inl e
         | Inr (skip, t1) \<Rightarrow> if skip then Inr t1 else Inr (gib_sto line t1))"

fun gib_lines :: "string list \<Rightarrow> tree \<Rightarrow> error + tree" where
  "gib_lines [] t = Inr t"
| "gib_lines (l # ls) t = (case gib_line l t of Inl e \<Rightarrow> Inl e | Inr t1 \<Rightarrow> gib_lines ls t1)"

definition parseGib :: "string \<Rightarrow> error + node" where
  "parseGib gib =
     (case gib_lines (split (CHR 0x0A) gib) \<lparr>root_props = [], nodes = []\<rparr> of
        Inl e \<Rightarrow> Inl e
      | Inr t \<Rightarrow> finish (root_props t) (nodes t))"

section \<open>Parser C: parseUgf\<close>

text \<open>
  The variables of \<open>parseUgf\<close>: the tree, \<open>boardsize\<close> and \<open>handicap\<close> (\<open>null\<close> is \<open>None\<close>),
  \<open>handicapStonesSet\<close>, \<open>coordinateType\<close>, and the \<open>section\<close> declared before the loop.
  The \<open>const section\<close> inside the \<open>try\<close> block is another variable, local to that block.
\<close>

record ugf_state = tree +
  u_boardsize :: "jsnum option"
  u_handicap :: "jsnum option"
  handicapStonesSet :: jsnum
  coordinateType :: "nat list"
  outer_section :: "string option"

text \<open>In arithmetic and comparisons \<open>null\<close> counts as 0.\<close>

definition to_num :: "jsnum option \<Rightarrow> jsnum" where
  "to_num v = (case v of Some n \<Rightarrow> n | None \<Rightarrow> Num 0)"

text \<open>
  Strings have no method \<open>chatAt\<close>: \<open>line.chatAt\<close> is \<open>undefined\<close>, and calling it throws
  a \<open>TypeError\<close> whatever the string and the argument are.
\<close>

definition chatAt :: "string \<Rightarrow> int \<Rightarrow> error + string" where
  "chatAt s i = Inl TypeError"

text \<open>
  The \<open>try\<close> block at the head of the loop body: \<open>Inr True\<close> when it ends in \<open>continue\<close>,
  \<open>Inr False\<close> when the condition is false, \<open>Inl\<close> when it throws.
\<close>

definition ugf_try :: "string \<Rightarrow> ugf_state \<Rightarrow> error + bool" where
  "ugf_try line st =
     (case chatAt line 0 of
        Inl e \<Rightarrow> Inl e
      | Inr c \<Rightarrow>
          if c = ''['' \<and> charAt line (int (length line) - 1) = '']''
          then
            (let inner_section = toUpperCase line
             in if inner_section = units ''[DATA]''
                then
                  (if u_handicap st = None \<or> u_boardsize st = None then Inl ParserFail
                   else if js_lt (to_num (u_boardsize st)) (Num 1)
                           \<or> js_gt (to_num (u_boardsize st)) (Num 19)
                           \<or> js_lt (to_num (u_handicap st)) (Num 0)
                   then Inl ParserFail
                   else Inr True)
                else Inr True)
          else Inr False)"

text \<open>
  The \<open>[HEADER]\<close> branch. In the \<open>HDCP=\<close> case a \<open>TypeError\<close> (no text after an equals sign)
  is caught and the line skipped; in the \<open>COORDINATETYPE=\<close> case it is not caught.
\<close>

definition ugf_header :: "string \<Rightarrow> ugf_state \<Rightarrow> error + ugf_state" where
  "ugf_header line st =
     (let u = toUpperCase line; ps = root_props st
      in if startsWith u (units ''HDCP='')
         then
           (case item (split (CHR ''='') line) 1 of
              None \<Rightarrow> Inr st
            | Some rhs \<Rightarrow>
                let handicapStr = item (split (CHR '','') rhs) 0;
                    handicap = parseInt (ToString handicapStr);
                    ps1 = (if js_ge handicap (Num 2)
                           then setValue ''HA'' (jsnum_toString handicap) ps else ps);
                    komiStr = item (split (CHR '','') rhs) 1;
                    komi = parseFloat (ToString komiStr)
                in Inr (st\<lparr>root_props := setValue ''KM'' (jsnum_toString komi) ps1,
                          u_handicap := Some handicap\<rparr>))
         else if startsWith u (units ''SIZE='')
         then
           (let sizeStr = item (split (CHR ''='') line) 1;
                boardsize = parseInt (ToString sizeStr)
            in Inr (st\<lparr>root_props := setValue ''SZ'' (jsnum_toString boardsize) ps,
                      u_boardsize := Some boardsize\<rparr>))
         else if startsWith u (units ''COORDINATETYPE='')
         then
           (case item (split (CHR ''='') line) 1 of
              None \<Rightarrow> Inl TypeError
            | Some v \<Rightarrow> Inr (st\<lparr>coordinateType := toUpperCase v\<rparr>))
         else if startsWith u (units ''PLAYERB='')
         then Inr (st\<lparr>root_props := safeCommit ''PB'' (slice_from line 8) ps\<rparr>)
         else if startsWith u (units ''PLAYERW='')
         then Inr (st\<lparr>root_props := safeCommit ''PW'' (slice_from line 8) ps\<rparr>)
         else if startsWith u (units ''PLACE='')
         then Inr (st\<lparr>root_props := safeCommit ''PC'' (slice_from line 6) ps\<rparr>)
         else if startsWith u (units ''TITLE='')
         then Inr (st\<lparr>root_props := safeCommit ''GN'' (slice_from line 6) ps\<rparr>)
         else if startsWith u (units ''WINNER=B'')
         then Inr (st\<lparr>root_props := setValue ''RE'' ''B+'' ps\<rparr>)
         else if startsWith u (units ''WINNER=W'')
         then Inr (st\<lparr>root_props := setValue ''RE'' ''W+'' ps\<rparr>)
         else Inr st)"

text \<open>
  The \<open>[DATA]\<close> branch; every exception in it is caught and the line skipped (a missing
  \<open>slist[0]\<close> or \<open>slist[1]\<close> makes \<open>charAt\<close> throw). The separator is the comma, code 44.
  \<open>handicapStonesSet !== handicap\<close> is true when \<open>handicap\<close> is \<open>null\<close>.
\<close>

definition ugf_data :: "string \<Rightarrow> ugf_state \<Rightarrow> ugf_state" where
  "ugf_data line0 st =
     (let line = toUpperCase line0; slist = split (44 :: nat) line
      in case (item slist 0, item slist 1) of
           (Some s0, Some s1) \<Rightarrow>
             let xChr = charAt s0 0; yChr = charAt s0 1; colour = charAt s1 0
             in if xChr = [] \<or> yChr = [] \<or> colour = [] then st
                else
                  let nodeChr = (if truthy_str (item slist 2)
                                 then (case item slist 2 of Some s2 \<Rightarrow> charAt s2 0 | None \<Rightarrow> [])
                                 else [])
                  in if colour \<noteq> units ''B'' \<and> colour \<noteq> units ''W'' then st
                     else
                       let boardsize = to_num (u_boardsize st);
                           x = js_sub (charCodeAt xChr 0) (Num 64);
                           y = (if coordinateType st = units ''IGS''
                                then js_add (js_sub boardsize
                                       (js_sub (charCodeAt yChr 0) (Num 64))) (Num 1)
                                else js_sub (charCodeAt yChr 0) (Num 64));
                           val = (if js_gt x boardsize \<or> js_lt x (Num 1)
                                       \<or> js_gt y boardsize \<or> js_lt y (Num 1)
                                    then Inr [] else stringFromPoint x y)
                       in case val of
                            Inl e \<Rightarrow> st
                          | Inr v \<Rightarrow>
                              if js_ge (to_num (u_handicap st)) (Num 2)
                                 \<and> (case u_handicap st of
                                       None \<Rightarrow> True
                                     | Some h \<Rightarrow> \<not> js_eq (handicapStonesSet st) h)
                                 \<and> nodeChr = units ''0'' \<and> colour = units ''B''
                                 \<and> nodes st = []
                              then st\<lparr>root_props := addValue ''AB'' v (root_props st),
                                      handicapStonesSet := js_add (handicapStonesSet st) (Num 1)\<rparr>
                              else st\<lparr>nodes := nodes st @ [setValue (of_units colour) v []]\<rparr>
         | _ \<Rightarrow> st)"

text \<open>
  One round of the loop. What the \<open>try\<close> block throws is swallowed by \<open>catch (e) {}\<close>, and
  the body goes on with the tests of the outer \<open>section\<close>, which no statement assigns.
\<close>

definition ugf_line :: "string \<Rightarrow> ugf_state \<Rightarrow> error + ugf_state" where
  "ugf_line line0 st =
     (let line = trim line0
      in case ugf_try line st of
           Inr True \<Rightarrow> Inr st
         | _ \<Rightarrow>
             if outer_section st = Some ''[HEADER]'' then ugf_header line st
             else if outer_section st = Some ''[DATA]'' then Inr (ugf_data line st)
             else Inr st)"

fun ugf_lines :: "string list \<Rightarrow> ugf_state \<Rightarrow> error + ugf_state" where
  "ugf_lines [] st = Inr st"
| "ugf_lines (l # ls) st = (case ugf_line l st of Inl e \<Rightarrow> Inl e | Inr st1 \<Rightarrow> ugf_lines ls st1)"

definition ugf_init :: ugf_state where
  "ugf_init = \<lparr>root_props = [], nodes = [], u_boardsize = None, u_handicap = None,
                handicapStonesSet = Num 0, coordinateType = [], outer_section = None\<rparr>"

definition parseUgf :: "string \<Rightarrow> error + node" where
  "parseUgf ugf =
     (case ugf_lines (split (CHR 0x0A) ugf) ugf_init of
        Inl e \<Rightarrow> Inl e
      | Inr st \<Rightarrow> finish (root_props st) (nodes st))"

section \<open>Normalisation of the parsed tree\<close>

text \<open>
  The part of \<open>parse\<close> after the parser has returned its root: three fixed tags, the
  default board size (\<open>board_size\<close> gives the variable \<open>size\<close> and the updated
  properties), and the board size check.
  \<open>root.properties.get("SZ")[0]\<close> of an empty array is \<open>undefined\<close>, which \<open>parseInt\<close>
  reads as the text \<open>undefined\<close>.
\<close>

definition board_size :: "props \<Rightarrow> jsnum \<times> props" where
  "board_size ps =
     (case map_of ps ''SZ'' of
        Some vs \<Rightarrow> (parseInt (case vs of v # _ \<Rightarrow> v | [] \<Rightarrow> ''undefined''), ps)
      | None \<Rightarrow> (Num 19, setValue ''SZ'' ''19'' ps))"

definition normalize_root :: "node \<Rightarrow> error + node" where
  "normalize_root rootn =
     (let ps1 = setValue ''FF'' (jsnum_toString (Num 4)) (properties rootn);
          ps2 = setValue ''GM'' (jsnum_toString (Num 1)) ps1;
          ps3 = setValue ''CA'' ''UTF-8'' ps2;
          (sz, ps4) = board_size ps3
      in if js_gt sz (Num 19) \<or> js_lt sz (Num 1) then Inl BadBoardSize
         else Inr (Node ps4 (children rootn)))"

text \<open>
  \<open>parse(contents, ext)\<close>: the parser registered for the extension, then the normalisation.
  For an extension that \<open>loaders\<close> does not have, \<open>loaders[ext]\<close> is \<open>undefined\<close> and reading
  its \<open>function\<close> throws a \<open>TypeError\<close>.
\<close>

definition loaders :: "string \<Rightarrow> (string \<Rightarrow> error + node) option" where
  "loaders ext =
     (if ext = ''.gib'' then Some parseGib
      else if ext = ''.ngf'' then Some parseNgf
      else if ext = ''.ugf'' then Some parseUgf
      else if ext = ''.ugi'' then Some parseUgf
      else None)"

definition parse :: "string \<Rightarrow> string \<Rightarrow> error + node" where
  "parse contents ext =
     (case loaders ext of
        None \<Rightarrow> Inl TypeError
      | Some parser \<Rightarrow>
          (case parser contents of
             Inl e \<Rightarrow> Inl e
           | Inr rootn \<Rightarrow> normalize_root rootn))"

section \<open>Serialiser\<close>

text \<open>
  \<open>writeTree\<close> writes to a stream; the model returns the text written, in order.
  \<open>writeLoop\<close> is the \<open>while (true)\<close> loop: one node statement, then the children.
\<close>

definition writeProps :: "props \<Rightarrow> string" where
  "writeProps ps =
     concat (map (\<lambda>(key, vals). key @ concat (map (\<lambda>v. ''['' @ v @ '']'') vals)) ps)"

fun writeTree :: "node \<Rightarrow> string" and writeLoop :: "node \<Rightarrow> string" where
  "writeTree n = ''('' @ writeLoop n @ [CHR '')'', CHR 0x0A]"
| "writeLoop (Node ps []) = '';'' @ writeProps ps"
| "writeLoop (Node ps [c]) = '';'' @ writeProps ps @ writeLoop c"
| "writeLoop (Node ps (c1 # c2 # cs)) =
     '';'' @ writeProps ps @ concat (map writeTree (c1 # c2 # cs))"


section \<open>Auxiliary definitions for the proofs\<close>

text \<open>
  The list that \<open>handicapPoints\<close> builds, as a function of the quantities the source
  computes first (\<open>1 + d\<close>, \<open>boardsize - d\<close>, \<open>mid\<close>) and over the integers. Lemma
  \<open>handicapPoints_int\<close> relates it to \<open>handicapPoints\<close>; it is used in proofs only.
\<close>

definition handicap_layout ::
  "int \<Rightarrow> bool \<Rightarrow> bool \<Rightarrow> int \<Rightarrow> int \<Rightarrow> int \<Rightarrow> (int \<times> int) list" where
  "handicap_layout hc ev tygem lo hi mid =
        (if 2 \<le> hc then [(hi, lo), (lo, hi)] else []) @
        (if 3 \<le> hc then [if tygem then (lo, lo) else (hi, hi)] else []) @
        (if 4 \<le> hc then [if tygem then (hi, hi) else (lo, lo)] else []) @
        (if ev then [] else
          (if hc \<in> {5, 7, 9} then [(mid, mid)] else []) @
          (if hc \<in> {6, 7, 8, 9} then [(lo, mid), (hi, mid)] else []) @
          (if hc \<in> {8, 9} then [(mid, lo), (mid, hi)] else []))"

text \<open>
  The tree in which the root \<open>p\<close> is followed by the chain of only children \<open>ps\<close> and the
  last node of the chain has the children \<open>cs\<close>; with no children it is \<open>build_chain p ps\<close>.
  It is used to state what the serialiser writes for a node reached down a chain.
\<close>

fun build_path :: "props \<Rightarrow> props list \<Rightarrow> node list \<Rightarrow> node" where
  "build_path p [] cs = Node p cs"
| "build_path p (q # qs) cs = Node p [build_path q qs cs]"

section \<open>Evaluation support\<close>

text \<open>The overflow bound of \<open>js_number\<close> as a numeral, so that evaluation does not recompute it.\<close>

lemma js_number_code [code]:
  "js_number q =
     (if 179769313486231580793728971405303415079934132710037826936173778980444968292764750946649017977587207096330286416692887910946555547851940402630657488671505820681908902000708383676273854845817711531764475730270069855571366959622842914819860834936475292719074168444365510704342711559699508093042880177904174497792 \<le> q then PosInf
      else if q \<le> - 179769313486231580793728971405303415079934132710037826936173778980444968292764750946649017977587207096330286416692887910946555547851940402630657488671505820681908902000708383676273854845817711531764475730270069855571366959622842914819860834936475292719074168444365510704342711559699508093042880177904174497792 then NegInf
      else if \<bar>q\<bar> \<le> 1 / 404804506614621236704990693437834614099113299528284236713802716054860679135990693783920767402874248990374155728633623822779617474771586953734026799881477019843034848553132722728933815484186432682479535356945490137124014966849385397236206711298319112681620113024717539104666829230461005064372655017292012526615415482186989568 then Num 0
      else Num q)"
  by (simp add: js_number_def)

lemma toString_4: "jsnum_toString (Num 4) = ''4''"
  by code_simp

lemma toString_1: "jsnum_toString (Num 1) = ''1''"
  by code_simp

lemma trunc_rat_of_int [simp]: "trunc_rat (of_int a) = a"
  by (simp add: trunc_rat_def)

section \<open>The coordinate encoder\<close>

lemma fromCharCode_letter:
  "fromCharCode (js_add (Num (of_int a)) (Num 96)) = char_of ((a + 96) mod 65536)"
proof -
  have "trunc_rat (of_int a + 96) = a + 96"
    using trunc_rat_of_int [of "a + 96"] by simp
  then show ?thesis by (simp add: fromCharCode_def)
qed

lemma char_of_inj_letters:
  assumes "1 \<le> a" "a \<le> 26" "1 \<le> c" "c \<le> 26"
    and "char_of ((a + 96) mod 65536) = (char_of ((c + 96) mod 65536) :: char)"
  shows "a = (c::int)"
proof -
  have "(a + 96) mod 65536 = a + 96" "(c + 96) mod 65536 = c + 96" using assms by auto
  with assms(5) have "(a + 96) mod 256 = (c + 96) mod 256" by (simp add: char_of_quasi_inj)
  with assms show ?thesis by auto
qed

lemma stringFromPoint_of_int:
  "stringFromPoint (Num (of_int a)) (Num (of_int b)) =
      (if 1 \<le> a \<and> a \<le> 26 \<and> 1 \<le> b \<and> b \<le> 26
       then Inr [char_of ((a + 96) mod 65536), char_of ((b + 96) mod 65536)] else Inl ValueError)"
  unfolding stringFromPoint_def fromCharCode_letter js_gt_def
  by (auto simp: not_less)

lemma stringFromPoint_guard:
  assumes "x \<noteq> NaN" "y \<noteq> NaN"
  shows "(stringFromPoint x y = Inl ValueError) =
      (\<not> (js_le (Num 1) x \<and> js_le x (Num 26) \<and> js_le (Num 1) y \<and> js_le y (Num 26)))"
  using assms
  by (cases x; cases y) (auto simp: stringFromPoint_def js_gt_def js_le_def js_eq_def)

text \<open>
  C9 (as amended). For numbers \<open>x\<close>, \<open>y\<close> other than \<open>NaN\<close>, \<open>stringFromPoint\<close> throws
  \<open>ValueError\<close> exactly when \<open>1 \<le> x \<le> 26\<close> and \<open>1 \<le> y \<le> 26\<close> does not hold. On integers
  it returns the two letters with codes \<open>x + 96\<close> and \<open>y + 96\<close>, it is injective on the
  integer points of \<open>[1,26] \<times> [1,26]\<close>, and it maps \<open>(1,1)\<close> to \<open>aa\<close> and \<open>(19,19)\<close> to
  \<open>ss\<close>.
\<close>

theorem stringFromPoint_numbers:
  "(x \<noteq> NaN \<and> y \<noteq> NaN \<longrightarrow>
      (stringFromPoint x y = Inl ValueError) =
      (\<not> (js_le (Num 1) x \<and> js_le x (Num 26) \<and> js_le (Num 1) y \<and> js_le y (Num 26))))
   \<and> stringFromPoint (Num (of_int a)) (Num (of_int b)) =
      (if 1 \<le> a \<and> a \<le> 26 \<and> 1 \<le> b \<and> b \<le> 26
       then Inr [char_of (a + 96), char_of (b + 96)] else Inl ValueError)
   \<and> (1 \<le> a \<and> a \<le> 26 \<and> 1 \<le> b \<and> b \<le> 26 \<and> 1 \<le> c \<and> c \<le> 26 \<and> 1 \<le> d \<and> d \<le> 26 \<and>
       stringFromPoint (Num (of_int a)) (Num (of_int b)) =
       stringFromPoint (Num (of_int c)) (Num (of_int d)) \<longrightarrow> a = c \<and> b = d)
   \<and> stringFromPoint (Num 1) (Num 1) = Inr ''aa''
   \<and> stringFromPoint (Num 19) (Num 19) = Inr ''ss''"
proof (intro conjI)
  show "x \<noteq> NaN \<and> y \<noteq> NaN \<longrightarrow>
      (stringFromPoint x y = Inl ValueError) =
      (\<not> (js_le (Num 1) x \<and> js_le x (Num 26) \<and> js_le (Num 1) y \<and> js_le y (Num 26)))"
    using stringFromPoint_guard by blast
  show "stringFromPoint (Num (of_int a)) (Num (of_int b)) =
      (if 1 \<le> a \<and> a \<le> 26 \<and> 1 \<le> b \<and> b \<le> 26
       then Inr [char_of (a + 96), char_of (b + 96)] else Inl ValueError)"
    by (simp add: stringFromPoint_of_int char_of_quasi_inj)
  show "1 \<le> a \<and> a \<le> 26 \<and> 1 \<le> b \<and> b \<le> 26 \<and> 1 \<le> c \<and> c \<le> 26 \<and> 1 \<le> d \<and> d \<le> 26 \<and>
       stringFromPoint (Num (of_int a)) (Num (of_int b)) =
       stringFromPoint (Num (of_int c)) (Num (of_int d)) \<longrightarrow> a = c \<and> b = d"
    by (auto simp: stringFromPoint_of_int dest: char_of_inj_letters)
  have "stringFromPoint (Num (of_int 1)) (Num (of_int 1)) = Inr ''aa''"
    unfolding stringFromPoint_of_int by (simp add: char_of_def)
  then show "stringFromPoint (Num 1) (Num 1) = Inr ''aa''" by simp
  have "stringFromPoint (Num (of_int 19)) (Num (of_int 19)) = Inr ''ss''"
    unfolding stringFromPoint_of_int by (simp add: char_of_def)
  then show "stringFromPoint (Num 19) (Num 19) = Inr ''ss''" by simp
qed

theorem stringFromPoint_numbers_witness:
  "Num 30 \<noteq> NaN \<and> Num 2 \<noteq> NaN \<and> stringFromPoint (Num 30) (Num 2) = Inl ValueError
   \<and> stringFromPoint (Num 16) (Num 4) = Inr ''pd''
   \<and> stringFromPoint (Num 16) (Num 4) = stringFromPoint (Num 16) (Num 4)"
  using stringFromPoint_numbers [of "Num 30" "Num 2" 16 4 16 4]
  by (simp add: js_le_def js_eq_def char_of_def)

text \<open>
  C9 as stated fails at \<open>NaN\<close>: both comparisons of the guard are false, nothing is thrown,
  and \<open>String.fromCharCode(NaN)\<close> is the character with code 0.
\<close>

theorem stringFromPoint_NaN_no_error: "stringFromPoint NaN NaN = Inr [CHR 0x00, CHR 0x00]"
  by (simp add: stringFromPoint_def js_gt_def fromCharCode_def char_of_def)

section \<open>Committing escaped values\<close>

lemma safeString_Nil_iff: "safeString v = [] \<longleftrightarrow> v = []"
  by (cases v) auto

lemma safeString_concat:
  "safeString v =
     concat (map (\<lambda>c. if c = CHR '']'' \<or> c = CHR 0x5C then [CHR 0x5C, c] else [c]) v)"
  by (induction v) simp_all

text \<open>
  C10. The escaped form of a value is the value with a backslash put in front of every
  \<open>]\<close> and every backslash, all other characters kept in place; it is empty only for the
  empty value. \<open>safeCommit\<close> stores this escaped form as the only value of the key when
  the value is not empty; with the empty value it deletes the key, whatever was stored
  there. Other keys are untouched.
\<close>

theorem safeCommit_effect:
  "safeString val =
     concat (map (\<lambda>c. if c = CHR '']'' \<or> c = CHR 0x5C then [CHR 0x5C, c] else [c]) val)
   \<and> (safeString val = [] \<longleftrightarrow> val = [])
   \<and> (val \<noteq> [] \<longrightarrow> safeCommit key val ps = AList.update key [safeString val] ps)
   \<and> safeCommit key [] ps = AList.delete key ps
   \<and> map_of (safeCommit key val ps) key = (if val = [] then None else Some [safeString val])
   \<and> map_of (safeCommit key val ps) key =
       (if val = [] then None
        else Some [concat (map (\<lambda>c. if c = CHR '']'' \<or> c = CHR 0x5C then [CHR 0x5C, c] else [c])
                     val)])
   \<and> (key \<notin> fst ` set (safeCommit key [] ps))
   \<and> (\<forall>k. k \<noteq> key \<longrightarrow> map_of (safeCommit key val ps) k = map_of ps k)"
proof -
  have notin: "key \<notin> fst ` set (AList.delete key ps)"
    by (auto simp: AList.delete_eq)
  have stored: "map_of (safeCommit key val ps) key =
      (if val = [] then None else Some [safeString val])"
    by (auto simp: safeCommit_def safeString_Nil_iff Let_def update_conv' delete_conv')
  have rest: "(safeString val = [] \<longleftrightarrow> val = [])
   \<and> (val \<noteq> [] \<longrightarrow> safeCommit key val ps = AList.update key [safeString val] ps)
   \<and> safeCommit key [] ps = AList.delete key ps
   \<and> (key \<notin> fst ` set (safeCommit key [] ps))
   \<and> (\<forall>k. k \<noteq> key \<longrightarrow> map_of (safeCommit key val ps) k = map_of ps k)"
    using notin
    by (auto simp: safeCommit_def safeString_Nil_iff Let_def update_conv' delete_conv')
  have esc: "safeString val =
     concat (map (\<lambda>c. if c = CHR '']'' \<or> c = CHR 0x5C then [CHR 0x5C, c] else [c]) val)"
    by (rule safeString_concat)
  have stored_esc: "map_of (safeCommit key val ps) key =
       (if val = [] then None
        else Some [concat (map (\<lambda>c. if c = CHR '']'' \<or> c = CHR 0x5C then [CHR 0x5C, c] else [c])
                     val)])"
    unfolding esc [symmetric] by (rule stored)
  show ?thesis
    using esc stored stored_esc rest by blast
qed

theorem safeCommit_effect_witness:
  "''a]'' @ [CHR 0x5C] @ ''b'' \<noteq> []
   \<and> safeString (''a]'' @ [CHR 0x5C] @ ''b'') = ''a'' @ [CHR 0x5C] @ '']'' @ [CHR 0x5C, CHR 0x5C] @ ''b''
   \<and> safeCommit ''PB'' (''a]'' @ [CHR 0x5C] @ ''b'') [(''PB'', [''x'']), (''PW'', [''y''])] =
       [(''PB'', [''a'' @ [CHR 0x5C] @ '']'' @ [CHR 0x5C, CHR 0x5C] @ ''b'']), (''PW'', [''y''])]
   \<and> safeCommit ''PB'' [] [(''PB'', [''x'']), (''PW'', [''y''])] = [(''PW'', [''y''])]
   \<and> ''PW'' \<noteq> ''PB''
   \<and> map_of (safeCommit ''PB'' (''a]'' @ [CHR 0x5C] @ ''b'') [(''PB'', [''x'']), (''PW'', [''y''])])
         ''PW'' = Some [''y'']"
  using safeCommit_effect [of "''a]'' @ [CHR 0x5C] @ ''b''" "''PB''"
      "[(''PB'', [''x'']), (''PW'', [''y''])]"]
  by (simp add: AList.delete_eq)


section \<open>Handicap points: count and bounds\<close>

lemma js_mod_2: "0 \<le> bs \<Longrightarrow> js_mod (Num (of_int bs)) (Num 2) = Num (of_int (bs mod 2))"
proof -
  assume nn: "0 \<le> bs"
  have "\<lfloor>rat_of_int bs / 2\<rfloor> = bs div 2"
    using floor_divide_of_int_eq [of bs 2, where ?'a = rat] by simp
  moreover have "\<not> rat_of_int bs / 2 < 0" using nn by simp
  ultimately have "trunc_rat (of_int bs / 2) = bs div 2" by (simp add: trunc_rat_def)
  moreover have "rat_of_int bs - 2 * of_int (bs div 2) = of_int (bs mod 2)"
    by (simp add: minus_mult_div_eq_mod [symmetric] del: minus_mult_div_eq_mod)
  ultimately show ?thesis by simp
qed

lemma js_mid:
  "js_floor (js_div (js_add (Num (of_int bs)) (Num 1)) (Num 2)) = Num (of_int ((bs + 1) div 2))"
proof -
  have "\<lfloor>rat_of_int (bs + 1) / 2\<rfloor> = (bs + 1) div 2"
    using floor_divide_of_int_eq [of "bs + 1" 2, where ?'a = rat] by simp
  then show ?thesis by simp
qed

lemma handicapPoints_int:
  assumes "4 \<le> bs"
  shows "handicapPoints (Num (of_int bs)) (Num (of_int h)) tygem =
     map (\<lambda>p. (Num (of_int (fst p)), Num (of_int (snd p))))
      (handicap_layout (min h 9) (even bs) tygem (1 + (if bs < 13 then 2 else 3))
         (bs - (if bs < 13 then 2 else 3)) ((bs + 1) div 2))"
proof -
  have nn: "0 \<le> bs" using assms by simp
  have m: "js_eq (js_mod (Num (of_int bs)) (Num 2)) (Num 0) = even bs"
    unfolding js_mod_2 [OF nn] by (auto simp: js_eq_def)
  show ?thesis
    unfolding handicapPoints_def Let_def js_mid m handicap_layout_def
    using assms
    by (auto simp: js_gt_def js_ge_def js_eq_def js_sub_def includes_num_def min_def)
qed

lemma handicap_layout_length:
  assumes "h = 0 \<or> h = 1 \<or> h = 2 \<or> h = 3 \<or> h = 4 \<or> h = 5 \<or> h = 6 \<or> h = 7 \<or> h = 8 \<or> h = 9"
  shows "int (length (handicap_layout h ev tygem lo hi mid)) =
           (if h < 2 then 0 else if ev then min h 4 else h)"
  using assms by (elim disjE; simp add: handicap_layout_def)

lemma handicap_layout_coords:
  assumes "(x, y) \<in> set (handicap_layout h ev tygem lo hi mid)"
  shows "x \<in> {lo, hi, mid} \<and> y \<in> {lo, hi, mid}"
  using assms by (auto simp: handicap_layout_def split: if_splits)

lemma handicap_layout_distinct:
  assumes "h = 0 \<or> h = 1 \<or> h = 2 \<or> h = 3 \<or> h = 4 \<or> h = 5 \<or> h = 6 \<or> h = 7 \<or> h = 8 \<or> h = 9"
    and "lo \<noteq> hi" and "\<not> ev \<Longrightarrow> mid \<noteq> lo \<and> mid \<noteq> hi"
  shows "distinct (handicap_layout h ev tygem lo hi mid)"
  using assms by (elim disjE; cases ev; cases tygem; simp add: handicap_layout_def)

text \<open>
  C2 (as amended). For every board size in \<open>[4,25]\<close> and every handicap in \<open>[0,9]\<close>, the number
  of points added is the documented count (none below handicap 2, at most the first four
  on an even board, otherwise the handicap itself) and every point lies on the board.
  For every board size other than 5 the points are pairwise different, so the number of
  distinct coordinates is the documented count as well.
\<close>

theorem handicapPoints_count_bounds:
  assumes "4 \<le> bs" "bs \<le> 25" "0 \<le> h" "h \<le> 9"
  shows "int (length (handicapPoints (Num (of_int bs)) (Num (of_int h)) tygem)) =
           (if h < 2 then 0 else if even bs then min h 4 else h)
       \<and> (\<forall>(x, y) \<in> set (handicapPoints (Num (of_int bs)) (Num (of_int h)) tygem).
             js_le (Num 1) x \<and> js_le x (Num (of_int bs)) \<and>
             js_le (Num 1) y \<and> js_le y (Num (of_int bs)))
       \<and> (bs \<noteq> 5 \<longrightarrow>
             int (card (set (handicapPoints (Num (of_int bs)) (Num (of_int h)) tygem))) =
               (if h < 2 then 0 else if even bs then min h 4 else h))"
proof -
  let ?f = "\<lambda>p :: int \<times> int. (Num (of_int (fst p)), Num (of_int (snd p)))"
  let ?n = "if h < 2 then 0 else if even bs then min h 4 else h"
  define d :: int where "d = (if bs < 13 then 2 else 3)"
  define lo where "lo = 1 + d"
  define hi where "hi = bs - d"
  define mid where "mid = (bs + 1) div 2"
  define pts where "pts = handicap_layout h (even bs) tygem lo hi mid"
  have h9: "min h 9 = h" using assms by simp
  have eq: "handicapPoints (Num (of_int bs)) (Num (of_int h)) tygem = map ?f pts"
    using handicapPoints_int [OF assms(1), of h tygem]
    by (simp add: pts_def lo_def hi_def mid_def d_def h9)
  have inj: "inj ?f" by (auto simp: inj_on_def prod_eq_iff)
  have hcases: "h = 0 \<or> h = 1 \<or> h = 2 \<or> h = 3 \<or> h = 4 \<or> h = 5 \<or> h = 6 \<or> h = 7 \<or> h = 8 \<or> h = 9"
    using assms by arith
  have len: "int (length pts) = ?n"
    unfolding pts_def by (rule handicap_layout_length [OF hcases])
  have rng: "1 \<le> lo \<and> lo \<le> bs \<and> 1 \<le> hi \<and> hi \<le> bs \<and> 1 \<le> mid \<and> mid \<le> bs"
    using assms(1,2) by (auto simp: lo_def hi_def mid_def d_def)
  have bounds: "1 \<le> a \<and> a \<le> bs \<and> 1 \<le> b \<and> b \<le> bs" if "(a, b) \<in> set pts" for a b
    using handicap_layout_coords [OF that [unfolded pts_def]] rng by auto
  have ne1: "lo \<noteq> hi" if "bs \<noteq> 5"
    using that assms(1,2) by (auto simp: lo_def hi_def d_def)
  have ne2: "mid \<noteq> lo \<and> mid \<noteq> hi" if "bs \<noteq> 5" "odd bs"
    using that assms(1,2) unfolding lo_def hi_def mid_def d_def by presburger
  have dist: "distinct pts" if "bs \<noteq> 5"
    unfolding pts_def
    using handicap_layout_distinct [OF hcases ne1 [OF that]] ne2 [OF that] by blast
  have c1: "int (length (map ?f pts)) = ?n"
    using len by simp
  have c2: "\<forall>(x, y) \<in> set (map ?f pts).
      js_le (Num 1) x \<and> js_le x (Num (of_int bs)) \<and> js_le (Num 1) y \<and> js_le y (Num (of_int bs))"
  proof (clarify)
    fix x y assume "(x, y) \<in> set (map ?f pts)"
    then obtain a b where ab: "(a, b) \<in> set pts" "x = Num (of_int a)" "y = Num (of_int b)"
      by auto
    from bounds [OF ab(1)]
    show "js_le (Num 1) x \<and> js_le x (Num (of_int bs)) \<and>
          js_le (Num 1) y \<and> js_le y (Num (of_int bs))"
      unfolding ab by (auto simp: js_le_def js_eq_def)
  qed
  have c3: "bs \<noteq> 5 \<longrightarrow> int (card (set (map ?f pts))) = ?n"
  proof
    assume "bs \<noteq> 5"
    moreover have "inj_on ?f (set pts)" using inj by (rule inj_on_subset) simp
    ultimately have "distinct (map ?f pts)" using dist by (simp add: distinct_map)
    then have "card (set (map ?f pts)) = length (map ?f pts)" by (rule distinct_card)
    then show "int (card (set (map ?f pts))) = ?n"
      using c1 by simp
  qed
  show ?thesis unfolding eq using c1 c2 c3 by blast
qed

theorem handicapPoints_count_bounds_witness:
  "(4::int) \<le> 19 \<and> (19::int) \<le> 25 \<and> (0::int) \<le> 9 \<and> (9::int) \<le> 9 \<and> (19::int) \<noteq> 5
   \<and> length (handicapPoints (Num 19) (Num 9) True) = 9
   \<and> card (set (handicapPoints (Num 19) (Num 9) True)) = 9"
  using handicapPoints_count_bounds [of 19 9 True] by simp

text \<open>
  C2 as stated fails on the 5 by 5 board: \<open>1 + d\<close>, \<open>boardsize - d\<close> and \<open>mid\<close> are all 3, so
  the four points of handicap 4 have one and the same coordinate.
\<close>

theorem handicapPoints_size5_collapse:
  "card (set (handicapPoints (Num 5) (Num 4) False)) = 1"
  by code_simp

section \<open>Normalisation\<close>

lemma normalize_tags:
  assumes "normalize_root rootn = Inr r"
  shows "map_of (properties r) ''FF'' = Some [''4'']"
    and "map_of (properties r) ''GM'' = Some [''1'']"
    and "map_of (properties r) ''CA'' = Some [''UTF-8'']"
    and "children r = children rootn"
    and "map_of (properties rootn) ''SZ'' = None \<Longrightarrow> map_of (properties r) ''SZ'' = Some [''19'']"
    and "map_of (properties rootn) ''SZ'' = Some vs \<Longrightarrow> map_of (properties r) ''SZ'' = Some vs"
  using assms
  unfolding normalize_root_def toString_4 toString_1
  by (auto simp: Let_def setValue_def update_conv' board_size_def
      split: prod.splits if_splits option.splits)

lemma normalize_error:
  "normalize_root rootn = Inl e \<Longrightarrow> e = BadBoardSize"
  by (auto simp: normalize_root_def Let_def split: prod.splits if_splits)

lemma normalize_fails_iff:
  "(normalize_root rootn = Inl BadBoardSize) =
     (case map_of (properties rootn) ''SZ'' of
        None \<Rightarrow> False
      | Some vs \<Rightarrow> (let sz = parseInt (case vs of v # _ \<Rightarrow> v | [] \<Rightarrow> ''undefined'')
                   in js_gt sz (Num 19) \<or> js_lt sz (Num 1)))"
  by (auto simp: normalize_root_def Let_def setValue_def update_conv' board_size_def js_gt_def
      split: prod.splits if_splits option.splits)

lemma parse_normalized:
  assumes "parse contents ext = Inr r"
  shows "\<exists>parser rootn. loaders ext = Some parser \<and> parser contents = Inr rootn
           \<and> normalize_root rootn = Inr r"
  using assms by (auto simp: parse_def split: option.splits sum.splits)

text \<open>
  C5 (as amended). Whenever normalisation returns a root, its \<open>FF\<close> is 4, its \<open>GM\<close> is 1, its
  \<open>CA\<close> is UTF-8, its \<open>SZ\<close> is 19 if the parsed root had none and unchanged otherwise, and the
  children are unchanged; this holds for every root that \<open>parse\<close> returns. The only error of
  the normalisation is \<open>BadBoardSize\<close>; it is not raised when \<open>SZ\<close> was absent, and when the
  first \<open>SZ\<close> value is read by \<open>parseInt\<close> as a number (not \<open>NaN\<close>) it is raised exactly
  when that number is outside \<open>[1,19]\<close>.
\<close>

theorem normalize_effect:
  "(\<forall>r. normalize_root rootn = Inr r \<longrightarrow>
        map_of (properties r) ''FF'' = Some [''4'']
      \<and> map_of (properties r) ''GM'' = Some [''1'']
      \<and> map_of (properties r) ''CA'' = Some [''UTF-8'']
      \<and> map_of (properties r) ''SZ'' =
           Some (case map_of (properties rootn) ''SZ'' of None \<Rightarrow> [''19''] | Some vs \<Rightarrow> vs)
      \<and> children r = children rootn)
   \<and> (\<forall>r. parse contents ext = Inr r \<longrightarrow>
        map_of (properties r) ''FF'' = Some [''4'']
      \<and> map_of (properties r) ''GM'' = Some [''1'']
      \<and> map_of (properties r) ''CA'' = Some [''UTF-8'']
      \<and> map_of (properties r) ''SZ'' \<noteq> None)
   \<and> (\<forall>e. normalize_root rootn = Inl e \<longrightarrow> e = BadBoardSize)
   \<and> (map_of (properties rootn) ''SZ'' = None \<longrightarrow> normalize_root rootn \<noteq> Inl BadBoardSize)
   \<and> (\<forall>v vs. map_of (properties rootn) ''SZ'' = Some (v # vs) \<and> parseInt v \<noteq> NaN \<longrightarrow>
         (normalize_root rootn = Inl BadBoardSize) =
         (\<not> (js_le (Num 1) (parseInt v) \<and> js_le (parseInt v) (Num 19))))"
proof (intro conjI allI impI)
  fix r assume r: "normalize_root rootn = Inr r"
  show "map_of (properties r) ''FF'' = Some [''4'']"
    and "map_of (properties r) ''GM'' = Some [''1'']"
    and "map_of (properties r) ''CA'' = Some [''UTF-8'']"
    and "children r = children rootn"
    using normalize_tags [OF r] by blast+
  show "map_of (properties r) ''SZ'' =
           Some (case map_of (properties rootn) ''SZ'' of None \<Rightarrow> [''19''] | Some vs \<Rightarrow> vs)"
    using normalize_tags(5,6) [OF r] by (cases "map_of (properties rootn) ''SZ''") auto
next
  fix r assume "parse contents ext = Inr r"
  then obtain root0 where r: "normalize_root root0 = Inr r"
    using parse_normalized by blast
  show "map_of (properties r) ''FF'' = Some [''4'']"
    and "map_of (properties r) ''GM'' = Some [''1'']"
    and "map_of (properties r) ''CA'' = Some [''UTF-8'']"
    using normalize_tags [OF r] by blast+
  show "map_of (properties r) ''SZ'' \<noteq> None"
    using normalize_tags(5,6) [OF r] by (cases "map_of (properties root0) ''SZ''") auto
next
  fix e assume "normalize_root rootn = Inl e"
  then show "e = BadBoardSize" by (rule normalize_error)
next
  assume "map_of (properties rootn) ''SZ'' = None"
  then show "normalize_root rootn \<noteq> Inl BadBoardSize" by (simp add: normalize_fails_iff)
next
  fix v vs
  assume a: "map_of (properties rootn) ''SZ'' = Some (v # vs) \<and> parseInt v \<noteq> NaN"
  then show "(normalize_root rootn = Inl BadBoardSize) =
         (\<not> (js_le (Num 1) (parseInt v) \<and> js_le (parseInt v) (Num 19)))"
    by (cases "parseInt v") (auto simp: normalize_fails_iff js_gt_def js_le_def js_eq_def)
qed

theorem normalize_effect_witness:
  "normalize_root (Node [(''SZ'', [''13'']), (''KM'', [''0.5''])] []) =
     Inr (Node [(''SZ'', [''13'']), (''KM'', [''0.5'']), (''FF'', [''4'']), (''GM'', [''1'']),
                (''CA'', [''UTF-8''])] [])
   \<and> map_of (properties (Node [(''SZ'', [''13'']), (''KM'', [''0.5''])] [])) ''SZ'' = Some [''13'']
   \<and> parseInt ''13'' \<noteq> NaN
   \<and> normalize_root (Node [(''SZ'', [''13'']), (''KM'', [''0.5''])] []) \<noteq> Inl BadBoardSize
   \<and> parse ''STO 0 2 1 15 15'' ''.gib'' =
       Inr (Node [(''FF'', [''4'']), (''GM'', [''1'']), (''CA'', [''UTF-8'']), (''SZ'', [''19''])]
              [Node [(''B'', [''pp''])] []])
   \<and> normalize_root (Node [(''SZ'', [''25''])] []) = Inl BadBoardSize
   \<and> map_of (properties (Node [] [])) ''SZ'' = None
   \<and> normalize_root (Node [] []) \<noteq> Inl BadBoardSize"
proof -
  have e: "parseInt ''13'' = Num 13" by code_simp
  have n: "normalize_root (Node [(''SZ'', [''13'']), (''KM'', [''0.5''])] []) =
     Inr (Node [(''SZ'', [''13'']), (''KM'', [''0.5'']), (''FF'', [''4'']), (''GM'', [''1'']),
                (''CA'', [''UTF-8''])] [])"
    by code_simp
  have p: "parse ''STO 0 2 1 15 15'' ''.gib'' =
       Inr (Node [(''FF'', [''4'']), (''GM'', [''1'']), (''CA'', [''UTF-8'']), (''SZ'', [''19''])]
              [Node [(''B'', [''pp''])] []])"
    by code_simp
  have b: "normalize_root (Node [(''SZ'', [''25''])] []) = Inl BadBoardSize"
    by code_simp
  show ?thesis
    using normalize_effect [of "Node [(''SZ'', [''13'']), (''KM'', [''0.5''])] []"
        "''STO 0 2 1 15 15''" "''.gib''"]
      normalize_effect [of "Node [(''SZ'', [''25''])] []"]
      normalize_effect [of "Node [] []"] e n p b
    by simp
qed

section \<open>The serialiser\<close>

lemma writeLoop_chain:
  "writeLoop (build_chain p ps) = concat (map (\<lambda>q. '';'' @ writeProps q) (p # ps))"
  by (induction p ps rule: build_chain.induct) simp_all

lemma count_stmts:
  assumes "\<forall>q \<in> set qs. c \<notin> set (writeProps q)" and "c \<noteq> CHR '';''"
  shows "count_list (concat (map (\<lambda>q. '';'' @ writeProps q) qs)) c = 0"
  using assms by (induction qs) (simp_all add: count_list_0_iff)

lemma count_semis:
  "count_list (concat (map (\<lambda>q. '';'' @ writeProps q) qs)) (CHR '';'') =
     length qs + sum_list (map (\<lambda>q. count_list (writeProps q) (CHR '';'')) qs)"
  by (induction qs) simp_all

lemma writeTree_branch:
  assumes "2 \<le> length cs"
  shows "writeTree (Node qs cs) =
          ''('' @ '';'' @ writeProps qs @ concat (map writeTree cs) @ [CHR '')'', CHR 0x0A]"
proof -
  from assms obtain c1 c2 rest where "cs = c1 # c2 # rest"
    by (cases cs; cases "tl cs") auto
  then show ?thesis by simp
qed

lemma writeLoop_branch:
  assumes "2 \<le> length cs"
  shows "writeLoop (Node qs cs) = '';'' @ writeProps qs @ concat (map writeTree cs)"
proof -
  from assms obtain c1 c2 rest where "cs = c1 # c2 # rest"
    by (cases cs; cases "tl cs") auto
  then show ?thesis by simp
qed

lemma writeLoop_path:
  assumes "length cs \<noteq> 1"
  shows "writeLoop (build_path p ps cs) =
     concat (map (\<lambda>q. '';'' @ writeProps q) (p # ps)) @ concat (map writeTree cs)"
  using assms
proof (induction p ps cs rule: build_path.induct)
  case (1 p cs)
  then show ?case
  proof (cases cs)
    case Nil
    then show ?thesis by simp
  next
    case (Cons c cs')
    with 1 have "2 \<le> length cs" by (cases cs') auto
    then show ?thesis using writeLoop_branch [of cs p] by (simp del: writeTree.simps)
  qed
next
  case (2 p q qs cs)
  then show ?case by simp
qed

lemma build_path_chain: "build_path p ps [] = build_chain p ps"
  by (induction p ps rule: build_chain.induct) simp_all

lemma count_groups:
  "count_list (concat (map writeTree cs)) c = sum_list (map (\<lambda>t. count_list (writeTree t) c) cs)"
  by (induction cs) (simp_all del: writeTree.simps)

text \<open>
  C7. The text written for a chain of \<open>N\<close> nodes (a root and its \<open>N - 1\<close> successive only
  children) is one opening parenthesis, the \<open>N\<close> node statements (a semicolon and the
  properties of the node) and one closing parenthesis with a newline; when no property
  text contains a parenthesis, the output holds exactly one of each, that is, no nested
  group. At a node with \<open>k \<ge> 2\<close> children, the loop writes the node statement followed by
  the \<open>k\<close> texts of the children, each a group that \<open>writeTree\<close> opens and closes itself,
  and nothing else. So for a chain whose last node has \<open>k \<ge> 2\<close> children, whether that
  node is the root or is reached down the chain, the output is the opening parenthesis,
  the statements of the chain, the \<open>k\<close> groups in order, and directly the closing
  parenthesis of the outer group; when no property text of the chain contains one, its
  opening parentheses are the outer one and those of the \<open>k\<close> groups.
\<close>

theorem writeTree_shape:
  "writeTree (build_chain p ps) =
      ''('' @ concat (map (\<lambda>q. '';'' @ writeProps q) (p # ps)) @ [CHR '')'', CHR 0x0A]
   \<and> ((\<forall>q \<in> set (p # ps). CHR ''('' \<notin> set (writeProps q) \<and> CHR '')'' \<notin> set (writeProps q)) \<longrightarrow>
        count_list (writeTree (build_chain p ps)) (CHR ''('') = 1
      \<and> count_list (writeTree (build_chain p ps)) (CHR '')'') = 1
      \<and> count_list (writeTree (build_chain p ps)) (CHR '';'') =
           length (p # ps) + sum_list (map (\<lambda>q. count_list (writeProps q) (CHR '';'')) (p # ps)))
   \<and> (2 \<le> length cs \<longrightarrow>
        writeTree (Node qs cs) =
          ''('' @ '';'' @ writeProps qs @ concat (map writeTree cs) @ [CHR '')'', CHR 0x0A]
      \<and> writeLoop (Node qs cs) = '';'' @ writeProps qs @ concat (map writeTree cs)
      \<and> writeLoop (build_path p ps cs) =
          concat (map (\<lambda>q. '';'' @ writeProps q) (p # ps)) @ concat (map writeTree cs)
      \<and> writeTree (build_path p ps cs) =
          ''('' @ concat (map (\<lambda>q. '';'' @ writeProps q) (p # ps)) @ concat (map writeTree cs)
            @ [CHR '')'', CHR 0x0A]
      \<and> ((\<forall>q \<in> set (p # ps). CHR ''('' \<notin> set (writeProps q)) \<longrightarrow>
           count_list (writeTree (build_path p ps cs)) (CHR ''('') =
             1 + sum_list (map (\<lambda>t. count_list (writeTree t) (CHR ''('')) cs))
      \<and> (\<forall>c \<in> set cs. writeTree c = ''('' @ writeLoop c @ [CHR '')'', CHR 0x0A]))"
proof (intro conjI impI)
  let ?body = "concat (map (\<lambda>q. '';'' @ writeProps q) (p # ps))"
  show eq: "writeTree (build_chain p ps) = ''('' @ ?body @ [CHR '')'', CHR 0x0A]"
    using writeLoop_chain [of p ps] by simp
  {
    assume clean: "\<forall>q \<in> set (p # ps). CHR ''('' \<notin> set (writeProps q) \<and> CHR '')'' \<notin> set (writeProps q)"
    have o: "count_list ?body (CHR ''('') = 0"
      by (rule count_stmts) (use clean in auto)
    have c: "count_list ?body (CHR '')'') = 0"
      by (rule count_stmts) (use clean in auto)
    show "count_list (writeTree (build_chain p ps)) (CHR ''('') = 1"
      unfolding eq using o by simp
    show "count_list (writeTree (build_chain p ps)) (CHR '')'') = 1"
      unfolding eq using c by simp
  }
  show "count_list (writeTree (build_chain p ps)) (CHR '';'') =
           length (p # ps) + sum_list (map (\<lambda>q. count_list (writeProps q) (CHR '';'')) (p # ps))"
    unfolding eq using count_semis [of "p # ps"] by simp
  {
    assume k: "2 \<le> length cs"
    then have k1: "length cs \<noteq> 1" by simp
    show "writeTree (Node qs cs) =
          ''('' @ '';'' @ writeProps qs @ concat (map writeTree cs) @ [CHR '')'', CHR 0x0A]"
      using k by (rule writeTree_branch)
    show "writeLoop (Node qs cs) = '';'' @ writeProps qs @ concat (map writeTree cs)"
      using k by (rule writeLoop_branch)
    show lp: "writeLoop (build_path p ps cs) = ?body @ concat (map writeTree cs)"
      using k1 by (rule writeLoop_path)
    show tp: "writeTree (build_path p ps cs) =
          ''('' @ ?body @ concat (map writeTree cs) @ [CHR '')'', CHR 0x0A]"
      using lp by simp
    {
      assume clean: "\<forall>q \<in> set (p # ps). CHR ''('' \<notin> set (writeProps q)"
      have o: "count_list ?body (CHR ''('') = 0"
        by (rule count_stmts) (use clean in auto)
      show "count_list (writeTree (build_path p ps cs)) (CHR ''('') =
             1 + sum_list (map (\<lambda>t. count_list (writeTree t) (CHR ''('')) cs)"
        unfolding tp using o count_groups [of cs "CHR ''(''"] by (simp del: writeTree.simps)
    }
  }
  show "\<forall>c \<in> set cs. writeTree c = ''('' @ writeLoop c @ [CHR '')'', CHR 0x0A]" by simp
qed

theorem writeTree_shape_witness:
  "writeTree (build_chain [(''SZ'', [''19''])] [[(''B'', [''pd''])], [(''W'', [''dp''])]]) =
      ''(;SZ[19];B[pd];W[dp])'' @ [CHR 0x0A]
   \<and> CHR ''('' \<notin> set (writeProps [(''SZ'', [''19''])]) \<and> CHR '')'' \<notin> set (writeProps [(''SZ'', [''19''])])
   \<and> CHR ''('' \<notin> set (writeProps [(''B'', [''pd''])]) \<and> CHR '')'' \<notin> set (writeProps [(''B'', [''pd''])])
   \<and> CHR ''('' \<notin> set (writeProps [(''W'', [''dp''])]) \<and> CHR '')'' \<notin> set (writeProps [(''W'', [''dp''])])
   \<and> count_list (writeTree (build_chain [(''SZ'', [''19''])]
         [[(''B'', [''pd''])], [(''W'', [''dp''])]])) (CHR ''('') = 1
   \<and> 2 \<le> length [Node [(''B'', [''aa''])] [], Node [(''B'', [''bb''])] []]
   \<and> writeTree (Node [(''SZ'', [''19''])] [Node [(''B'', [''aa''])] [], Node [(''B'', [''bb''])] []]) =
        ''(;SZ[19](;B[aa])'' @ [CHR 0x0A] @ ''(;B[bb])'' @ [CHR 0x0A] @ '')'' @ [CHR 0x0A]
   \<and> build_path [(''SZ'', [''19''])] [[(''B'', [''pd''])], [(''W'', [''dp''])]]
         [Node [(''B'', [''aa''])] [], Node [(''B'', [''bb''])] []] =
       Node [(''SZ'', [''19''])] [Node [(''B'', [''pd''])] [Node [(''W'', [''dp''])]
         [Node [(''B'', [''aa''])] [], Node [(''B'', [''bb''])] []]]]
   \<and> writeTree (Node [(''SZ'', [''19''])] [Node [(''B'', [''pd''])] [Node [(''W'', [''dp''])]
         [Node [(''B'', [''aa''])] [], Node [(''B'', [''bb''])] []]]]) =
        ''(;SZ[19];B[pd];W[dp](;B[aa])'' @ [CHR 0x0A] @ ''(;B[bb])'' @ [CHR 0x0A] @ '')'' @ [CHR 0x0A]
   \<and> count_list (writeTree (Node [(''SZ'', [''19''])] [Node [(''B'', [''pd''])] [Node [(''W'', [''dp''])]
         [Node [(''B'', [''aa''])] [], Node [(''B'', [''bb''])] []]]])) (CHR ''('') = 3"
  using writeTree_shape [of "[(''SZ'', [''19''])]" "[[(''B'', [''pd''])], [(''W'', [''dp''])]]"
      "[Node [(''B'', [''aa''])] [], Node [(''B'', [''bb''])] []]" "[(''SZ'', [''19''])]"]
  by (simp add: writeProps_def)


section \<open>Parser C never gets past its first test\<close>

lemma ugf_try_throws: "ugf_try line st = Inl TypeError"
  by (simp add: ugf_try_def chatAt_def)

lemma ugf_line_idle:
  assumes "outer_section st = None"
  shows "ugf_line l st = Inr st"
  using assms by (simp add: ugf_line_def ugf_try_throws)

lemma ugf_lines_idle:
  assumes "outer_section st = None"
  shows "ugf_lines ls st = Inr st"
  using assms by (induction ls) (simp_all add: ugf_line_idle)

lemma ugf_data_section: "outer_section (ugf_data line st) = outer_section st"
  by (simp add: ugf_data_def Let_def split: option.splits sum.splits)

lemma ugf_header_section:
  "ugf_header line st = Inr st' \<Longrightarrow> outer_section st' = outer_section st"
  by (auto simp: ugf_header_def Let_def split: if_splits option.splits)

lemma ugf_line_section: "ugf_line l st = Inr st' \<Longrightarrow> outer_section st' = outer_section st"
  by (auto simp: ugf_line_def Let_def ugf_try_throws ugf_data_section
      split: if_splits dest: ugf_header_section)

lemma ugf_lines_section:
  "ugf_lines ls st = Inr st' \<Longrightarrow> outer_section st' = outer_section st"
proof (induction ls arbitrary: st)
  case Nil
  then show ?case by simp
next
  case (Cons l ls)
  from Cons.prems obtain st1 where 1: "ugf_line l st = Inr st1" and 2: "ugf_lines ls st1 = Inr st'"
    by (auto split: sum.splits)
  from Cons.IH [OF 2] ugf_line_section [OF 1] show ?case by simp
qed

text \<open>
  C1. For every line and every state the \<open>try\<close> block throws (the call of \<open>chatAt\<close>), so its
  test of the brackets is never evaluated. No round of the loop changes the outer
  \<open>section\<close>, from whatever state it starts. The outer \<open>section\<close> is \<open>null\<close> at the start,
  and whatever the lines are, the loop leaves every variable as it was at the start:
  neither the header branch nor the data branch runs. The root has no child at the end,
  and \<open>parseUgf\<close> throws \<open>ParserFail\<close> for every input.
\<close>

theorem parseUgf_always_fails:
  "ugf_try line st = Inl TypeError
   \<and> (ugf_lines ls st = Inr st' \<longrightarrow> outer_section st' = outer_section st)
   \<and> outer_section ugf_init = None
   \<and> ugf_lines ls ugf_init = Inr ugf_init
   \<and> parseUgf ugf = Inl ParserFail"
proof (intro conjI impI)
  show "ugf_try line st = Inl TypeError" by (rule ugf_try_throws)
  show "outer_section st' = outer_section st" if "ugf_lines ls st = Inr st'"
    using that by (rule ugf_lines_section)
  show n: "outer_section ugf_init = None" by (simp add: ugf_init_def)
  show "ugf_lines ls ugf_init = Inr ugf_init"
    by (rule ugf_lines_idle [OF n])
  have "ugf_lines (split (CHR 0x0A) ugf) ugf_init = Inr ugf_init"
    by (rule ugf_lines_idle [OF n])
  then show "parseUgf ugf = Inl ParserFail"
    by (simp add: parseUgf_def finish_def) (simp add: ugf_init_def)
qed

theorem parseUgf_always_fails_witness:
  "ugf_lines [''[HEADER]'', ''SIZE=19'', ''[DATA]'', ''AA,B1,0,0''] ugf_init = Inr ugf_init
   \<and> outer_section ugf_init = None
   \<and> parseUgf ''[HEADER]\<newline>SIZE=19\<newline>[DATA]\<newline>AA,B1,0,0'' = Inl ParserFail"
  using parseUgf_always_fails
    [where ls = "[''[HEADER]'', ''SIZE=19'', ''[DATA]'', ''AA,B1,0,0'']" and st = ugf_init
       and st' = ugf_init and ugf = "''[HEADER]\<newline>SIZE=19\<newline>[DATA]\<newline>AA,B1,0,0''"]
  by simp

section \<open>No child, no tree\<close>

lemma finish_Inr: "finish ps ms = Inr r \<Longrightarrow> children r \<noteq> []"
  by (cases ms) (auto simp: finish_def)

lemma finish_Nil: "finish ps [] = Inl ParserFail"
  by (simp add: finish_def)

lemma parseInt_cases:
  "parseInt s = NaN \<or> parseInt s = PosInf \<or> parseInt s = NegInf \<or> (\<exists>n::int. parseInt s = Num (of_int n))"
proof -
  have num: "\<exists>n::int. js_number (of_int k) = Num (of_int n) \<or> js_number (of_int k) = PosInf \<or> js_number (of_int k) = NegInf" for k :: int
  proof (cases "js_number (of_int k) = Num 0")
    case True
    then have "js_number (of_int k) = Num (of_int 0)" by simp
    then show ?thesis by blast
  next
    case False
    then show ?thesis by (auto simp: js_number_def split: if_splits)
  qed
  obtain neg s2 where a: "strip_sign (dropWhile is_space s) = (neg, s2)" by (cases "strip_sign (dropWhile is_space s)")
  obtain radix s3 where b: "(case s2 of a # b # t \<Rightarrow> if a = CHR ''0'' \<and> (b = CHR ''x'' \<or> b = CHR ''X'') then (16, t) else (10, s2) | _ \<Rightarrow> (10::nat, s2)) = (radix, s3)"
    by (cases "(case s2 of a # b # t \<Rightarrow> if a = CHR ''0'' \<and> (b = CHR ''x'' \<or> b = CHR ''X'') then (16, t) else (10, s2) | _ \<Rightarrow> (10::nat, s2))")
  define z where "z = takeWhile (\<lambda>c. digit_value radix c \<noteq> None) s3"
  have p: "parseInt s = (if z = [] then NaN else js_number ((if neg then - 1 else 1) * of_nat (digits_value radix z)))"
    unfolding parseInt_def a Let_def prod.case b z_def ..
  have "(if neg then - 1 else 1) * rat_of_nat (digits_value radix z) = of_int ((if neg then - 1 else 1) * int (digits_value radix z))"
    by simp
  then show ?thesis using num [of "(if neg then - 1 else 1) * int (digits_value radix z)"] unfolding p
    by (cases "z = []") auto
qed

lemma handicap_in_range:
  assumes "\<not> js_lt (parseInt s) (Num 0)" "\<not> js_gt (parseInt s) (Num 9)" "js_ge (parseInt s) (Num 2)"
  shows "\<exists>n. parseInt s = Num (of_int n) \<and> 2 \<le> n \<and> n \<le> 9"
  using parseInt_cases [of s] assms
  by (auto simp: js_gt_def js_ge_def js_eq_def)

lemma add_stones_total:
  assumes "\<forall>(x, y) \<in> set pts. \<exists>a b. x = Num (of_int a) \<and> y = Num (of_int b)
             \<and> 1 \<le> a \<and> a \<le> 26 \<and> 1 \<le> b \<and> b \<le> 26"
  shows "\<exists>ps'. add_stones pts ps = Inr ps'"
  using assms
proof (induction pts ps rule: add_stones.induct)
  case (1 ps)
  then show ?case by simp
next
  case (2 x y pts ps)
  from "2.prems" obtain a b where ab: "x = Num (of_int a)" "y = Num (of_int b)"
     "1 \<le> a" "a \<le> 26" "1 \<le> b" "b \<le> 26" by auto
  then obtain v where v: "stringFromPoint x y = Inr v"
    by (simp add: stringFromPoint_of_int)
  from "2.IH" [OF v] "2.prems" show ?case by (simp add: v)
qed

lemma handicapPoints_19_encodable:
  "\<forall>(x, y) \<in> set (handicapPoints (Num 19) (Num (of_int n)) True).
      \<exists>a b. x = Num (of_int a) \<and> y = Num (of_int b) \<and> 1 \<le> a \<and> a \<le> 26 \<and> 1 \<le> b \<and> b \<le> 26"
proof -
  have eq: "handicapPoints (Num 19) (Num (of_int n)) True =
     map (\<lambda>p. (Num (of_int (fst p)), Num (of_int (snd p)))) (handicap_layout (min n 9) False True 4 16 10)"
    using handicapPoints_int [of 19 n True] by simp
  show ?thesis
    unfolding eq by (auto dest!: handicap_layout_coords)
qed

lemma gib_ini_error: "gib_ini line t = Inl e \<Longrightarrow> e = ParserFail"
proof -
  assume a: "gib_ini line t = Inl e"
  show ?thesis
  proof (rule ccontr)
    assume ne: "e \<noteq> ParserFail"
    define s where "s = ToString (item (split_ws (trim line)) 3)"
    from a ne have c: "\<not> js_lt (parseInt s) (Num 0)" "\<not> js_gt (parseInt s) (Num 9)" "js_ge (parseInt s) (Num 2)"
      and st: "add_stones (handicapPoints (Num 19) (parseInt s) True)
                 (setValue ''HA'' (jsnum_toString (parseInt s)) (root_props t)) = Inl e"
      by (auto simp: gib_ini_def Let_def s_def split: if_splits sum.splits)
    from handicap_in_range [OF c] obtain n where n: "parseInt s = Num (of_int n)" by blast
    from add_stones_total [OF handicapPoints_19_encodable [of n]] st show False
      unfolding n by (metis sum.distinct(1))
  qed
qed

lemma gib_line_error: "gib_line l t = Inl e \<Longrightarrow> e = ParserFail"
  by (auto simp: gib_line_def Let_def split: sum.splits prod.splits if_splits dest: gib_ini_error)

lemma gib_lines_error: "gib_lines ls t = Inl e \<Longrightarrow> e = ParserFail"
  by (induction ls arbitrary: t) (auto split: sum.splits dest: gib_line_error)

lemma finish_error: "finish ps ms = Inl e \<Longrightarrow> e = ParserFail"
  by (auto simp: finish_def split: if_splits)

lemma parseGib_error: "parseGib gib = Inl e \<Longrightarrow> e = ParserFail"
  by (auto simp: parseGib_def split: sum.splits dest: gib_lines_error finish_error)

lemma ngf_handicap_small:
  assumes "h = (if isInteger (parseInt s) then Num 0 else parseInt s)"
    and "\<not> js_lt h (Num 0)" "\<not> js_gt h (Num 9)"
  shows "\<not> js_ge h (Num 2)"
  using parseInt_cases [of s] assms
  by (auto simp: js_gt_def js_ge_def js_eq_def split: if_splits)

lemma ngf_root_error: "ngf_root lines = Inl e \<Longrightarrow> e = ParserFail"
proof -
  assume a: "ngf_root lines = Inl e"
  define h where "h = (if isInteger (parseInt (ToString (item lines 5))) then Num 0
                       else parseInt (ToString (item lines 5)))"
  show ?thesis
  proof (cases "js_lt h (Num 0) \<or> js_gt h (Num 9)")
    case True
    with a show ?thesis by (simp add: ngf_root_def Let_def h_def)
  next
    case False
    then have "\<not> js_ge h (Num 2)"
      using ngf_handicap_small [OF h_def] by blast
    with a False show ?thesis
      by (simp add: ngf_root_def Let_def h_def)
  qed
qed

lemma parseNgf_error: "parseNgf ngf = Inl e \<Longrightarrow> e = ParserFail"
  by (auto simp: parseNgf_def Let_def split: sum.splits dest: ngf_root_error finish_error)

lemma parseGib_Inr: "parseGib gib = Inr r \<Longrightarrow> children r \<noteq> []"
  by (auto simp: parseGib_def split: sum.splits dest: finish_Inr)

lemma parseNgf_Inr: "parseNgf ngf = Inr r \<Longrightarrow> children r \<noteq> []"
  by (auto simp: parseNgf_def Let_def split: sum.splits dest: finish_Inr)

text \<open>
  C6. Each parser ends with the same test: with no node created, the result is
  \<open>ParserFail\<close> whatever the properties of the root are. So when the loop of \<open>parseGib\<close>,
  of \<open>parseNgf\<close> or of \<open>parseUgf\<close> ends without a node, the parser throws \<open>ParserFail\<close>.
  No other exception leaves \<open>parseGib\<close> or \<open>parseNgf\<close>, so each of them either throws
  \<open>ParserFail\<close> or returns a root that has a child; \<open>parseUgf\<close> always throws \<open>ParserFail\<close>.
\<close>

theorem parsers_fail_without_children:
  "finish ps [] = Inl ParserFail
   \<and> (gib_lines (split (CHR 0x0A) gib) \<lparr>root_props = [], nodes = []\<rparr> = Inr t \<and> nodes t = []
        \<longrightarrow> parseGib gib = Inl ParserFail)
   \<and> (ngf_root (split (CHR 0x0A) (trim ngf)) = Inr ps2
        \<and> foldl ngf_line [] (split (CHR 0x0A) (trim ngf)) = []
        \<longrightarrow> parseNgf ngf = Inl ParserFail)
   \<and> (ugf_lines (split (CHR 0x0A) ugf) ugf_init = Inr st \<and> nodes st = []
        \<longrightarrow> parseUgf ugf = Inl ParserFail)
   \<and> (parseGib gib = Inl ParserFail \<or> (\<exists>r. parseGib gib = Inr r \<and> children r \<noteq> []))
   \<and> (parseNgf ngf = Inl ParserFail \<or> (\<exists>r. parseNgf ngf = Inr r \<and> children r \<noteq> []))
   \<and> parseUgf ugf = Inl ParserFail"
proof (intro conjI)
  show "finish ps [] = Inl ParserFail" by (rule finish_Nil)
  show "gib_lines (split (CHR 0x0A) gib) \<lparr>root_props = [], nodes = []\<rparr> = Inr t \<and> nodes t = []
        \<longrightarrow> parseGib gib = Inl ParserFail"
    by (auto simp: parseGib_def finish_Nil)
  show "ngf_root (split (CHR 0x0A) (trim ngf)) = Inr ps2
        \<and> foldl ngf_line [] (split (CHR 0x0A) (trim ngf)) = []
        \<longrightarrow> parseNgf ngf = Inl ParserFail"
    by (auto simp: parseNgf_def Let_def finish_Nil)
  show "ugf_lines (split (CHR 0x0A) ugf) ugf_init = Inr st \<and> nodes st = []
        \<longrightarrow> parseUgf ugf = Inl ParserFail"
    by (auto simp: parseUgf_def finish_Nil)
  show "parseGib gib = Inl ParserFail \<or> (\<exists>r. parseGib gib = Inr r \<and> children r \<noteq> [])"
    using parseGib_error [of gib] parseGib_Inr [of gib] by (cases "parseGib gib") auto
  show "parseNgf ngf = Inl ParserFail \<or> (\<exists>r. parseNgf ngf = Inr r \<and> children r \<noteq> [])"
    using parseNgf_error [of ngf] parseNgf_Inr [of ngf] by (cases "parseNgf ngf") auto
  have "ugf_lines (split (CHR 0x0A) ugf) ugf_init = Inr ugf_init"
    by (rule ugf_lines_idle) (simp add: ugf_init_def)
  then show "parseUgf ugf = Inl ParserFail"
    by (simp add: parseUgf_def finish_def) (simp add: ugf_init_def)
qed

theorem parsers_fail_without_children_witness:
  "gib_lines (split (CHR 0x0A) (CHR 0x5C # ''[GAMEBLACKNAME=Bob'' @ [CHR 0x5C] @ '']''))
       \<lparr>root_props = [], nodes = []\<rparr> = Inr \<lparr>root_props = [(''PB'', [''Bob''])], nodes = []\<rparr>
   \<and> nodes \<lparr>root_props = [(''PB'', [''Bob''])], nodes = []\<rparr> = []
   \<and> parseGib (CHR 0x5C # ''[GAMEBLACKNAME=Bob'' @ [CHR 0x5C] @ '']'') = Inl ParserFail
   \<and> ngf_root (split (CHR 0x0A) (trim ''app\<newline>19\<newline>white'')) =
        Inr [(''SZ'', [''19'']), (''PW'', [''white''])]
   \<and> foldl ngf_line [] (split (CHR 0x0A) (trim ''app\<newline>19\<newline>white'')) = []
   \<and> parseNgf ''app\<newline>19\<newline>white'' = Inl ParserFail
   \<and> ugf_lines (split (CHR 0x0A) ''[DATA]\<newline>AA,B1,0'') ugf_init = Inr ugf_init
   \<and> nodes ugf_init = []
   \<and> parseUgf ''[DATA]\<newline>AA,B1,0'' = Inl ParserFail"
proof -
  have g1: "gib_lines (split (CHR 0x0A) (CHR 0x5C # ''[GAMEBLACKNAME=Bob'' @ [CHR 0x5C] @ '']''))
       \<lparr>root_props = [], nodes = []\<rparr> = Inr \<lparr>root_props = [(''PB'', [''Bob''])], nodes = []\<rparr>"
    by code_simp
  have n1: "ngf_root (split (CHR 0x0A) (trim ''app\<newline>19\<newline>white'')) =
        Inr [(''SZ'', [''19'']), (''PW'', [''white''])]"
    by code_simp
  have n2: "foldl ngf_line [] (split (CHR 0x0A) (trim ''app\<newline>19\<newline>white'')) = []"
    by code_simp
  have u1: "ugf_lines (split (CHR 0x0A) ''[DATA]\<newline>AA,B1,0'') ugf_init = Inr ugf_init"
    by (rule ugf_lines_idle) (simp add: ugf_init_def)
  have u2: "nodes ugf_init = []" by (simp add: ugf_init_def)
  show ?thesis
    using parsers_fail_without_children
        [where gib = "CHR 0x5C # ''[GAMEBLACKNAME=Bob'' @ [CHR 0x5C] @ '']''"
        and t = "\<lparr>root_props = [(''PB'', [''Bob''])], nodes = []\<rparr>"
        and ngf = "''app\<newline>19\<newline>white''"
        and ?ps2.0 = "[(''SZ'', [''19'']), (''PW'', [''white''])]"
        and ugf = "''[DATA]\<newline>AA,B1,0''" and st = ugf_init]
      g1 n1 n2 u1 u2
    by simp
qed

section \<open>Parser B at inputs where the inverted tests show\<close>

text \<open>
  C3. \<open>parseNgf\<close> replaces the board size by 19 and the handicap by 0 when they \<^emph>\<open>are\<close>
  integers (\<open>if (Number.isInteger(boardsize)) boardsize = 19\<close>), and keeps \<open>NaN\<close> when they
  are not. With the board size line \<open>abc\<close> and the handicap line \<open>12\<close> the root gets
  \<open>SZ[NaN]\<close>, and no \<open>ParserFail\<close> is thrown for the handicap 12.
\<close>

theorem parseNgf_size_handicap_inverted:
  "parseNgf ''app\<newline>abc\<newline>white 9d\<newline>black 8d\<newline>x\<newline>12\<newline>x\<newline>x\<newline>20200131\<newline>x\<newline>White wins\<newline>PMABBBB'' =
     Inr (Node [(''SZ'', [''NaN'']), (''DT'', [''2020-01-31'']), (''PW'', [''white'']),
                (''PB'', [''black'']), (''RE'', [''W+''])]
            [Node [(''B'', [''aa''])] []])"
  by code_simp

text \<open>
  C4. \<open>parseNgf\<close> replaces every finite komi by 0 (\<open>if (Number.isFinite(komi)) komi = 0\<close>).
  With handicap 0 and komi 6 the root gets \<open>KM[0.5]\<close>, not 6.5; with handicap 2 and komi
  6.5 the handicap has become 0 as well, and the root gets \<open>KM[0.5]\<close> and no \<open>HA\<close>.
\<close>

theorem parseNgf_komi_inverted:
  "parseNgf ''app\<newline>19\<newline>white 9d\<newline>black 8d\<newline>x\<newline>0\<newline>x\<newline>6\<newline>20200131\<newline>x\<newline>White wins\<newline>PMABBBB'' =
     Inr (Node [(''SZ'', [''19'']), (''KM'', [''0.5'']), (''DT'', [''2020-01-31'']),
                (''PW'', [''white'']), (''PB'', [''black'']), (''RE'', [''W+''])]
            [Node [(''B'', [''aa''])] []])
   \<and> parseNgf ''app\<newline>19\<newline>white 9d\<newline>black 8d\<newline>x\<newline>2\<newline>x\<newline>6.5\<newline>20200131\<newline>x\<newline>White wins\<newline>PMABBBB'' =
     Inr (Node [(''SZ'', [''19'']), (''KM'', [''0.5'']), (''DT'', [''2020-01-31'']),
                (''PW'', [''white'']), (''PB'', [''black'']), (''RE'', [''W+''])]
            [Node [(''B'', [''aa''])] []])"
  by code_simp

text \<open>
  C5 as stated fails on a tree that \<open>parseNgf\<close> returns: with an unreadable board size line
  the root carries \<open>SZ[NaN]\<close>, \<open>parseInt\<close> gives \<open>NaN\<close>, both comparisons of the check are
  false, and the root is returned with a board size that is not in \<open>[1,19]\<close>.
\<close>

theorem parse_ngf_NaN_size_passes:
  "parse ''app\<newline>abc\<newline>white 9d\<newline>black 8d\<newline>x\<newline>12\<newline>x\<newline>x\<newline>20200131\<newline>x\<newline>White wins\<newline>PMABBBB'' ''.ngf'' =
     Inr (Node [(''SZ'', [''NaN'']), (''DT'', [''2020-01-31'']), (''PW'', [''white'']),
                (''PB'', [''black'']), (''RE'', [''W+'']), (''FF'', [''4'']), (''GM'', [''1'']),
                (''CA'', [''UTF-8''])]
            [Node [(''B'', [''aa''])] []])"
  by code_simp

section \<open>Parser A: which assignment wins\<close>

lemma map_of_setValue_other: "k \<noteq> key \<Longrightarrow> map_of (setValue k v ps) key = map_of ps key"
  by (simp add: setValue_def update_conv')

lemma map_of_safeCommit_other: "k \<noteq> key \<Longrightarrow> map_of (safeCommit k v ps) key = map_of ps key"
  by (simp add: safeCommit_def Let_def update_conv' delete_conv')

lemma map_of_addValue_other: "k \<noteq> key \<Longrightarrow> map_of (addValue k v ps) key = map_of ps key"
  by (simp add: addValue_def Let_def update_conv')

lemma add_stones_other:
  "add_stones pts ps = Inr ps' \<Longrightarrow> key \<noteq> ''AB'' \<Longrightarrow> map_of ps' key = map_of ps key"
proof (induction pts ps rule: add_stones.induct)
  case (1 ps)
  then show ?case by simp
next
  case (2 x y pts ps)
  then show ?case
    by (auto split: sum.splits simp: map_of_addValue_other)
qed

lemma gib_player_other:
  "key \<noteq> nk \<Longrightarrow> key \<noteq> rk \<Longrightarrow> map_of (gib_player tag nk rk line ps) key = map_of ps key"
  by (simp add: gib_player_def Let_def map_of_safeCommit_other split: prod.splits)

lemma gib_infomain_keeps:
  "map_of ps key = Some v \<Longrightarrow> map_of (gib_infomain line ps) key = Some v"
  by (cases "key = ''RE''"; cases "key = ''KM''")
     (auto simp: gib_infomain_def Let_def has_def map_of_setValue_other split: option.splits)

lemma gib_tag_keeps:
  "map_of ps key = Some v \<Longrightarrow> map_of (gib_tag line ps) key = Some v"
  by (cases "key = ''RE''"; cases "key = ''KM''"; cases "key = ''DT''")
     (auto simp: gib_tag_def Let_def has_def map_of_setValue_other split: option.splits)

lemma gib_ini_other:
  assumes "gib_ini line t = Inr (skip, t')" "key \<noteq> ''HA''" "key \<noteq> ''AB''"
  shows "map_of (root_props t') key = map_of (root_props t) key"
  using assms
  by (auto simp: gib_ini_def Let_def map_of_setValue_other
      split: if_splits sum.splits dest!: add_stones_other [where key = key])

lemma gib_sto_root: "root_props (gib_sto line t) = root_props t"
  by (simp add: gib_sto_def Let_def split: sum.splits)

lemma gib_line_keeps:
  assumes "gib_line l t = Inr t'" "key \<in> {''RE'', ''KM'', ''DT''}"
    and "map_of (root_props t) key = Some v"
  shows "map_of (root_props t') key = Some v"
proof -
  define line where "line = trim l"
  define ps1 where "ps1 = gib_player (CHR 0x5C # ''[GAMEBLACKNAME='') ''PB'' ''BR'' line (root_props t)"
  define ps2 where "ps2 = gib_player (CHR 0x5C # ''[GAMEWHITENAME='') ''PW'' ''WR'' line ps1"
  define ps4 where "ps4 = gib_tag line (gib_infomain line ps2)"
  have k1: "map_of ps1 key = Some v"
    unfolding ps1_def using assms(2,3) by (subst gib_player_other) auto
  have k2: "map_of ps2 key = Some v"
    unfolding ps2_def using assms(2) k1 by (subst gib_player_other) auto
  have k4: "map_of ps4 key = Some v"
    unfolding ps4_def by (intro gib_tag_keeps gib_infomain_keeps k2)
  from assms(1) obtain skip t1 where ini: "gib_ini line (t\<lparr>root_props := ps4\<rparr>) = Inr (skip, t1)"
    and t': "t' = (if skip then t1 else gib_sto line t1)"
    by (auto simp: gib_line_def Let_def line_def ps1_def ps2_def ps4_def split: sum.splits if_splits)
  have "map_of (root_props t1) key = map_of ps4 key"
    using gib_ini_other [OF ini, of key] assms(2) by auto
  then show ?thesis using k4 t' by (simp add: gib_sto_root)
qed

lemma gib_lines_keeps:
  assumes "gib_lines ls t = Inr t'" "key \<in> {''RE'', ''KM'', ''DT''}"
    and "map_of (root_props t) key = Some v"
  shows "map_of (root_props t') key = Some v"
  using assms
proof (induction ls arbitrary: t)
  case Nil
  then show ?case by simp
next
  case (Cons l ls)
  from Cons.prems(1) obtain t1 where 1: "gib_line l t = Inr t1" and 2: "gib_lines ls t1 = Inr t'"
    by (auto split: sum.splits)
  from gib_line_keeps [OF 1 Cons.prems(2,3)] have "map_of (root_props t1) key = Some v" .
  from Cons.IH [OF 2 Cons.prems(2) this] show ?case .
qed

lemma gib_lines_append:
  "gib_lines (ls1 @ ls2) t = (case gib_lines ls1 t of Inl e \<Rightarrow> Inl e | Inr t1 \<Rightarrow> gib_lines ls2 t1)"
  by (induction ls1 arbitrary: t) (auto split: sum.splits)

lemma properties_finish: "finish ps ms = Inr r \<Longrightarrow> properties r = ps"
  by (cases ms) (auto simp: finish_def)


lemma gib_player_sets:
  assumes "startsWith line tag" "endsWith line [CHR 0x5C, CHR '']'']"
    and "parsePlayerName (slice line 16 (- 2)) = (name, rank)" "name \<noteq> []" "nk \<noteq> rk"
  shows "map_of (gib_player tag nk rk line ps) nk = Some [safeString name]"
    and "rank \<noteq> [] \<Longrightarrow> map_of (gib_player tag nk rk line ps) rk = Some [safeString rank]"
  using assms
  by (auto simp: gib_player_def Let_def safeCommit_def safeString_Nil_iff update_conv')

lemma gib_line_after_root:
  assumes "gib_line l t = Inr t'" "key \<noteq> ''HA''" "key \<noteq> ''AB''"
    and "map_of (gib_tag (trim l) (gib_infomain (trim l) ps2)) key = Some v"
    and "ps2 = gib_player (CHR 0x5C # ''[GAMEWHITENAME='') ''PW'' ''WR'' (trim l)
                 (gib_player (CHR 0x5C # ''[GAMEBLACKNAME='') ''PB'' ''BR'' (trim l) (root_props t))"
  shows "map_of (root_props t') key = Some v"
proof -
  from assms(1) obtain skip t1
    where ini: "gib_ini (trim l) (t\<lparr>root_props := gib_tag (trim l) (gib_infomain (trim l) ps2)\<rparr>) = Inr (skip, t1)"
    and t': "t' = (if skip then t1 else gib_sto (trim l) t1)"
    by (auto simp: gib_line_def Let_def assms(5) split: sum.splits if_splits)
  have "map_of (root_props t1) key = map_of (gib_tag (trim l) (gib_infomain (trim l) ps2)) key"
    using gib_ini_other [OF ini, of key] assms(2,3) by auto
  then show ?thesis using assms(4) t' by (simp add: gib_sto_root)
qed

lemma gib_line_black:
  assumes "gib_line l t = Inr t'"
    and "startsWith (trim l) (CHR 0x5C # ''[GAMEBLACKNAME='')" "endsWith (trim l) [CHR 0x5C, CHR '']'']"
    and "parsePlayerName (slice (trim l) 16 (- 2)) = (name, rank)" "name \<noteq> []"
  shows "map_of (root_props t') ''PB'' = Some [safeString name]"
    and "rank \<noteq> [] \<Longrightarrow> map_of (root_props t') ''BR'' = Some [safeString rank]"
proof -
  let ?ps1 = "gib_player (CHR 0x5C # ''[GAMEBLACKNAME='') ''PB'' ''BR'' (trim l) (root_props t)"
  let ?ps2 = "gib_player (CHR 0x5C # ''[GAMEWHITENAME='') ''PW'' ''WR'' (trim l) ?ps1"
  have a: "map_of ?ps1 ''PB'' = Some [safeString name]"
    by (rule gib_player_sets(1) [OF assms(2,3,4,5)]) simp
  have b: "map_of ?ps2 ''PB'' = Some [safeString name]"
    using a by (subst gib_player_other) auto
  show "map_of (root_props t') ''PB'' = Some [safeString name]"
    by (rule gib_line_after_root [OF assms(1) _ _ _ refl])
       (auto intro!: gib_tag_keeps gib_infomain_keeps b)
  assume r: "rank \<noteq> []"
  have a': "map_of ?ps1 ''BR'' = Some [safeString rank]"
    by (rule gib_player_sets(2) [OF assms(2,3,4,5) _ r]) simp
  have b': "map_of ?ps2 ''BR'' = Some [safeString rank]"
    using a' by (subst gib_player_other) auto
  show "map_of (root_props t') ''BR'' = Some [safeString rank]"
    by (rule gib_line_after_root [OF assms(1) _ _ _ refl])
       (auto intro!: gib_tag_keeps gib_infomain_keeps b')
qed

lemma gib_line_white:
  assumes "gib_line l t = Inr t'"
    and "startsWith (trim l) (CHR 0x5C # ''[GAMEWHITENAME='')" "endsWith (trim l) [CHR 0x5C, CHR '']'']"
    and "parsePlayerName (slice (trim l) 16 (- 2)) = (name, rank)" "name \<noteq> []"
  shows "map_of (root_props t') ''PW'' = Some [safeString name]"
    and "rank \<noteq> [] \<Longrightarrow> map_of (root_props t') ''WR'' = Some [safeString rank]"
proof -
  let ?ps1 = "gib_player (CHR 0x5C # ''[GAMEBLACKNAME='') ''PB'' ''BR'' (trim l) (root_props t)"
  let ?ps2 = "gib_player (CHR 0x5C # ''[GAMEWHITENAME='') ''PW'' ''WR'' (trim l) ?ps1"
  have b: "map_of ?ps2 ''PW'' = Some [safeString name]"
    by (rule gib_player_sets(1) [OF assms(2,3,4,5)]) simp
  show "map_of (root_props t') ''PW'' = Some [safeString name]"
    by (rule gib_line_after_root [OF assms(1) _ _ _ refl])
       (auto intro!: gib_tag_keeps gib_infomain_keeps b)
  assume r: "rank \<noteq> []"
  have b': "map_of ?ps2 ''WR'' = Some [safeString rank]"
    by (rule gib_player_sets(2) [OF assms(2,3,4,5) _ r]) simp
  show "map_of (root_props t') ''WR'' = Some [safeString rank]"
    by (rule gib_line_after_root [OF assms(1) _ _ _ refl])
       (auto intro!: gib_tag_keeps gib_infomain_keeps b')
qed

lemma parsePlayerName_no_name:
  "fst (parsePlayerName s) = [] \<Longrightarrow> snd (parsePlayerName s) = []"
  by (auto simp: parsePlayerName_def Let_def split: prod.splits if_splits list.splits)

lemma gib_player_idle:
  assumes "\<not> (startsWith line tag \<and> endsWith line [CHR 0x5C, CHR '']'']
              \<and> fst (parsePlayerName (slice line 16 (- 2))) \<noteq> [])"
  shows "gib_player tag nk rk line ps = ps"
proof (cases "startsWith line tag \<and> endsWith line [CHR 0x5C, CHR '']'']")
  case False
  then show ?thesis by (auto simp: gib_player_def)
next
  case True
  with assms have n: "fst (parsePlayerName (slice line 16 (- 2))) = []" by blast
  from parsePlayerName_no_name [OF n] n show ?thesis
    by (cases "parsePlayerName (slice line 16 (- 2))") (auto simp: gib_player_def Let_def)
qed

lemma gib_player_keeps_rank:
  assumes "\<not> (startsWith line tag \<and> endsWith line [CHR 0x5C, CHR '']'']
              \<and> snd (parsePlayerName (slice line 16 (- 2))) \<noteq> [])"
    and "nk \<noteq> rk"
  shows "map_of (gib_player tag nk rk line ps) rk = map_of ps rk"
  using assms
  by (auto simp: gib_player_def Let_def map_of_safeCommit_other split: prod.splits)

lemma gib_lines_keeps_if:
  assumes "gib_lines ls t = Inr t'" "map_of (root_props t) key = Some v"
    and "\<And>l t t'. l \<in> set ls \<Longrightarrow> gib_line l t = Inr t' \<Longrightarrow> map_of (root_props t) key = Some v
           \<Longrightarrow> map_of (root_props t') key = Some v"
  shows "map_of (root_props t') key = Some v"
  using assms
proof (induction ls arbitrary: t)
  case Nil
  then show ?case by simp
next
  case (Cons l ls)
  from Cons.prems(1) obtain t1 where 1: "gib_line l t = Inr t1" and 2: "gib_lines ls t1 = Inr t'"
    by (auto split: sum.splits)
  have k: "map_of (root_props t1) key = Some v"
    by (rule Cons.prems(3) [OF _ 1 Cons.prems(2)]) simp
  show ?case
    by (rule Cons.IH [OF 2 k]) (rule Cons.prems(3), auto)
qed

lemma gib_line_keeps_PB:
  assumes "gib_line l t = Inr t'" "map_of (root_props t) ''PB'' = Some v"
    and "\<not> (startsWith (trim l) (CHR 0x5C # ''[GAMEBLACKNAME='') \<and> endsWith (trim l) [CHR 0x5C, CHR '']'']
              \<and> fst (parsePlayerName (slice (trim l) 16 (- 2))) \<noteq> [])"
  shows "map_of (root_props t') ''PB'' = Some v"
proof -
  let ?ps1 = "gib_player (CHR 0x5C # ''[GAMEBLACKNAME='') ''PB'' ''BR'' (trim l) (root_props t)"
  let ?ps2 = "gib_player (CHR 0x5C # ''[GAMEWHITENAME='') ''PW'' ''WR'' (trim l) ?ps1"
  have a: "map_of ?ps1 ''PB'' = Some v"
    using gib_player_idle [OF assms(3)] assms(2) by simp
  have b: "map_of ?ps2 ''PB'' = Some v"
    using a by (subst gib_player_other) auto
  show ?thesis
    by (rule gib_line_after_root [OF assms(1) _ _ _ refl])
       (auto intro!: gib_tag_keeps gib_infomain_keeps b)
qed

lemma gib_line_keeps_BR:
  assumes "gib_line l t = Inr t'" "map_of (root_props t) ''BR'' = Some v"
    and "\<not> (startsWith (trim l) (CHR 0x5C # ''[GAMEBLACKNAME='') \<and> endsWith (trim l) [CHR 0x5C, CHR '']'']
              \<and> snd (parsePlayerName (slice (trim l) 16 (- 2))) \<noteq> [])"
  shows "map_of (root_props t') ''BR'' = Some v"
proof -
  let ?ps1 = "gib_player (CHR 0x5C # ''[GAMEBLACKNAME='') ''PB'' ''BR'' (trim l) (root_props t)"
  let ?ps2 = "gib_player (CHR 0x5C # ''[GAMEWHITENAME='') ''PW'' ''WR'' (trim l) ?ps1"
  have a: "map_of ?ps1 ''BR'' = Some v"
    using gib_player_keeps_rank [OF assms(3), of "''PB''" "''BR''"] assms(2) by simp
  have b: "map_of ?ps2 ''BR'' = Some v"
    using a by (subst gib_player_other) auto
  show ?thesis
    by (rule gib_line_after_root [OF assms(1) _ _ _ refl])
       (auto intro!: gib_tag_keeps gib_infomain_keeps b)
qed

lemma gib_line_keeps_PW:
  assumes "gib_line l t = Inr t'" "map_of (root_props t) ''PW'' = Some v"
    and "\<not> (startsWith (trim l) (CHR 0x5C # ''[GAMEWHITENAME='') \<and> endsWith (trim l) [CHR 0x5C, CHR '']'']
              \<and> fst (parsePlayerName (slice (trim l) 16 (- 2))) \<noteq> [])"
  shows "map_of (root_props t') ''PW'' = Some v"
proof -
  let ?ps1 = "gib_player (CHR 0x5C # ''[GAMEBLACKNAME='') ''PB'' ''BR'' (trim l) (root_props t)"
  let ?ps2 = "gib_player (CHR 0x5C # ''[GAMEWHITENAME='') ''PW'' ''WR'' (trim l) ?ps1"
  have a: "map_of ?ps1 ''PW'' = Some v"
    using assms(2) by (subst gib_player_other) auto
  have b: "map_of ?ps2 ''PW'' = Some v"
    using gib_player_idle [OF assms(3)] a by simp
  show ?thesis
    by (rule gib_line_after_root [OF assms(1) _ _ _ refl])
       (auto intro!: gib_tag_keeps gib_infomain_keeps b)
qed

lemma gib_line_keeps_WR:
  assumes "gib_line l t = Inr t'" "map_of (root_props t) ''WR'' = Some v"
    and "\<not> (startsWith (trim l) (CHR 0x5C # ''[GAMEWHITENAME='') \<and> endsWith (trim l) [CHR 0x5C, CHR '']'']
              \<and> snd (parsePlayerName (slice (trim l) 16 (- 2))) \<noteq> [])"
  shows "map_of (root_props t') ''WR'' = Some v"
proof -
  let ?ps1 = "gib_player (CHR 0x5C # ''[GAMEBLACKNAME='') ''PB'' ''BR'' (trim l) (root_props t)"
  let ?ps2 = "gib_player (CHR 0x5C # ''[GAMEWHITENAME='') ''PW'' ''WR'' (trim l) ?ps1"
  have a: "map_of ?ps1 ''WR'' = Some v"
    using assms(2) by (subst gib_player_other) auto
  have b: "map_of ?ps2 ''WR'' = Some v"
    using gib_player_keeps_rank [OF assms(3), of "''PW''" "''WR''"] a by simp
  show ?thesis
    by (rule gib_line_after_root [OF assms(1) _ _ _ refl])
       (auto intro!: gib_tag_keeps gib_infomain_keeps b)
qed

lemma parseGib_split:
  assumes "split (CHR 0x0A) gib = ls1 @ l # ls2" "parseGib gib = Inr r"
  obtains t1 t2 t3 where "gib_lines ls1 \<lparr>root_props = [], nodes = []\<rparr> = Inr t1"
    and "gib_line l t1 = Inr t2" and "gib_lines ls2 t2 = Inr t3" and "properties r = root_props t3"
proof -
  from assms obtain t3 where g: "gib_lines (ls1 @ l # ls2) \<lparr>root_props = [], nodes = []\<rparr> = Inr t3"
    and f: "finish (root_props t3) (nodes t3) = Inr r"
    by (auto simp: parseGib_def split: sum.splits)
  from g obtain t1 where 1: "gib_lines ls1 \<lparr>root_props = [], nodes = []\<rparr> = Inr t1"
    and r: "gib_lines (l # ls2) t1 = Inr t3"
    by (auto simp: gib_lines_append split: sum.splits)
  from r obtain t2 where 2: "gib_line l t1 = Inr t2" and 3: "gib_lines ls2 t2 = Inr t3"
    by (auto split: sum.splits)
  from that [OF 1 2 3] properties_finish [OF f] show thesis by simp
qed

lemma parseGib_last_black:
  assumes "split (CHR 0x0A) gib = ls1 @ l # ls2" "parseGib gib = Inr r"
    and "startsWith (trim l) (CHR 0x5C # ''[GAMEBLACKNAME='')" "endsWith (trim l) [CHR 0x5C, CHR '']'']"
    and "parsePlayerName (slice (trim l) 16 (- 2)) = (name, rank)" "name \<noteq> []"
  shows "(\<forall>l' \<in> set ls2. \<not> (startsWith (trim l') (CHR 0x5C # ''[GAMEBLACKNAME='')
              \<and> endsWith (trim l') [CHR 0x5C, CHR '']'']
              \<and> fst (parsePlayerName (slice (trim l') 16 (- 2))) \<noteq> []))
         \<Longrightarrow> map_of (properties r) ''PB'' = Some [safeString name]"
    and "rank \<noteq> [] \<Longrightarrow> (\<forall>l' \<in> set ls2. \<not> (startsWith (trim l') (CHR 0x5C # ''[GAMEBLACKNAME='')
              \<and> endsWith (trim l') [CHR 0x5C, CHR '']'']
              \<and> snd (parsePlayerName (slice (trim l') 16 (- 2))) \<noteq> []))
         \<Longrightarrow> map_of (properties r) ''BR'' = Some [safeString rank]"
proof -
  from parseGib_split [OF assms(1,2)] obtain t1 t2 t3
    where 2: "gib_line l t1 = Inr t2" and 3: "gib_lines ls2 t2 = Inr t3"
      and p: "properties r = root_props t3" by metis
  {
    assume q: "\<forall>l' \<in> set ls2. \<not> (startsWith (trim l') (CHR 0x5C # ''[GAMEBLACKNAME='')
              \<and> endsWith (trim l') [CHR 0x5C, CHR '']'']
              \<and> fst (parsePlayerName (slice (trim l') 16 (- 2))) \<noteq> [])"
    have "map_of (root_props t3) ''PB'' = Some [safeString name]"
      by (rule gib_lines_keeps_if [OF 3 gib_line_black(1) [OF 2 assms(3,4,5,6)]])
         (rule gib_line_keeps_PB, use q in auto)
    then show "map_of (properties r) ''PB'' = Some [safeString name]" by (simp add: p)
  }
  {
    assume rk: "rank \<noteq> []" and q: "\<forall>l' \<in> set ls2. \<not> (startsWith (trim l') (CHR 0x5C # ''[GAMEBLACKNAME='')
              \<and> endsWith (trim l') [CHR 0x5C, CHR '']'']
              \<and> snd (parsePlayerName (slice (trim l') 16 (- 2))) \<noteq> [])"
    have "map_of (root_props t3) ''BR'' = Some [safeString rank]"
      by (rule gib_lines_keeps_if [OF 3 gib_line_black(2) [OF 2 assms(3,4,5,6) rk]])
         (rule gib_line_keeps_BR, use q in auto)
    then show "map_of (properties r) ''BR'' = Some [safeString rank]" by (simp add: p)
  }
qed

lemma parseGib_last_white:
  assumes "split (CHR 0x0A) gib = ls1 @ l # ls2" "parseGib gib = Inr r"
    and "startsWith (trim l) (CHR 0x5C # ''[GAMEWHITENAME='')" "endsWith (trim l) [CHR 0x5C, CHR '']'']"
    and "parsePlayerName (slice (trim l) 16 (- 2)) = (name, rank)" "name \<noteq> []"
  shows "(\<forall>l' \<in> set ls2. \<not> (startsWith (trim l') (CHR 0x5C # ''[GAMEWHITENAME='')
              \<and> endsWith (trim l') [CHR 0x5C, CHR '']'']
              \<and> fst (parsePlayerName (slice (trim l') 16 (- 2))) \<noteq> []))
         \<Longrightarrow> map_of (properties r) ''PW'' = Some [safeString name]"
    and "rank \<noteq> [] \<Longrightarrow> (\<forall>l' \<in> set ls2. \<not> (startsWith (trim l') (CHR 0x5C # ''[GAMEWHITENAME='')
              \<and> endsWith (trim l') [CHR 0x5C, CHR '']'']
              \<and> snd (parsePlayerName (slice (trim l') 16 (- 2))) \<noteq> []))
         \<Longrightarrow> map_of (properties r) ''WR'' = Some [safeString rank]"
proof -
  from parseGib_split [OF assms(1,2)] obtain t1 t2 t3
    where 2: "gib_line l t1 = Inr t2" and 3: "gib_lines ls2 t2 = Inr t3"
      and p: "properties r = root_props t3" by metis
  {
    assume q: "\<forall>l' \<in> set ls2. \<not> (startsWith (trim l') (CHR 0x5C # ''[GAMEWHITENAME='')
              \<and> endsWith (trim l') [CHR 0x5C, CHR '']'']
              \<and> fst (parsePlayerName (slice (trim l') 16 (- 2))) \<noteq> [])"
    have "map_of (root_props t3) ''PW'' = Some [safeString name]"
      by (rule gib_lines_keeps_if [OF 3 gib_line_white(1) [OF 2 assms(3,4,5,6)]])
         (rule gib_line_keeps_PW, use q in auto)
    then show "map_of (properties r) ''PW'' = Some [safeString name]" by (simp add: p)
  }
  {
    assume rk: "rank \<noteq> []" and q: "\<forall>l' \<in> set ls2. \<not> (startsWith (trim l') (CHR 0x5C # ''[GAMEWHITENAME='')
              \<and> endsWith (trim l') [CHR 0x5C, CHR '']'']
              \<and> snd (parsePlayerName (slice (trim l') 16 (- 2))) \<noteq> [])"
    have "map_of (root_props t3) ''WR'' = Some [safeString rank]"
      by (rule gib_lines_keeps_if [OF 3 gib_line_white(2) [OF 2 assms(3,4,5,6) rk]])
         (rule gib_line_keeps_WR, use q in auto)
    then show "map_of (properties r) ''WR'' = Some [safeString rank]" by (simp add: p)
  }
qed

text \<open>
  C8 (as amended). For the result, the komi and the date (\<open>RE\<close>, \<open>KM\<close>, \<open>DT\<close>): a value that
  the root holds after some first lines of the text is the value of the returned root,
  so the first line that sets the field wins and later ones are ignored. For the player
  names and ranks: every line that sets the black (white) player with a non-empty name
  stores that name in \<open>PB\<close> (\<open>PW\<close>), and its rank, if not empty, in \<open>BR\<close> (\<open>WR\<close>), whatever
  was stored before; and when no later line of the text sets the name (the rank), the
  root that \<open>parseGib\<close> returns holds the name (the rank) of that line: the last line
  that sets the field wins.
\<close>

theorem parseGib_assignment_order:
  "(split (CHR 0x0A) gib = ls1 @ ls2
      \<and> gib_lines ls1 \<lparr>root_props = [], nodes = []\<rparr> = Inr t1
      \<and> key \<in> {''RE'', ''KM'', ''DT''} \<and> map_of (root_props t1) key = Some v
      \<and> parseGib gib = Inr r
      \<longrightarrow> map_of (properties r) key = Some v)
   \<and> (gib_line l t = Inr t'
      \<and> startsWith (trim l) (CHR 0x5C # ''[GAMEBLACKNAME='') \<and> endsWith (trim l) [CHR 0x5C, CHR '']'']
      \<and> parsePlayerName (slice (trim l) 16 (- 2)) = (name, rank) \<and> name \<noteq> []
      \<longrightarrow> map_of (root_props t') ''PB'' = Some [safeString name]
        \<and> (rank \<noteq> [] \<longrightarrow> map_of (root_props t') ''BR'' = Some [safeString rank]))
   \<and> (gib_line l t = Inr t'
      \<and> startsWith (trim l) (CHR 0x5C # ''[GAMEWHITENAME='') \<and> endsWith (trim l) [CHR 0x5C, CHR '']'']
      \<and> parsePlayerName (slice (trim l) 16 (- 2)) = (name, rank) \<and> name \<noteq> []
      \<longrightarrow> map_of (root_props t') ''PW'' = Some [safeString name]
        \<and> (rank \<noteq> [] \<longrightarrow> map_of (root_props t') ''WR'' = Some [safeString rank]))
   \<and> (split (CHR 0x0A) gib = ms1 @ l # ms2 \<and> parseGib gib = Inr r
      \<and> startsWith (trim l) (CHR 0x5C # ''[GAMEBLACKNAME='') \<and> endsWith (trim l) [CHR 0x5C, CHR '']'']
      \<and> parsePlayerName (slice (trim l) 16 (- 2)) = (name, rank) \<and> name \<noteq> []
      \<longrightarrow> ((\<forall>l' \<in> set ms2. \<not> (startsWith (trim l') (CHR 0x5C # ''[GAMEBLACKNAME='')
                  \<and> endsWith (trim l') [CHR 0x5C, CHR '']'']
                  \<and> fst (parsePlayerName (slice (trim l') 16 (- 2))) \<noteq> []))
            \<longrightarrow> map_of (properties r) ''PB'' = Some [safeString name])
        \<and> (rank \<noteq> [] \<and> (\<forall>l' \<in> set ms2. \<not> (startsWith (trim l') (CHR 0x5C # ''[GAMEBLACKNAME='')
                  \<and> endsWith (trim l') [CHR 0x5C, CHR '']'']
                  \<and> snd (parsePlayerName (slice (trim l') 16 (- 2))) \<noteq> []))
            \<longrightarrow> map_of (properties r) ''BR'' = Some [safeString rank]))
   \<and> (split (CHR 0x0A) gib = ms1 @ l # ms2 \<and> parseGib gib = Inr r
      \<and> startsWith (trim l) (CHR 0x5C # ''[GAMEWHITENAME='') \<and> endsWith (trim l) [CHR 0x5C, CHR '']'']
      \<and> parsePlayerName (slice (trim l) 16 (- 2)) = (name, rank) \<and> name \<noteq> []
      \<longrightarrow> ((\<forall>l' \<in> set ms2. \<not> (startsWith (trim l') (CHR 0x5C # ''[GAMEWHITENAME='')
                  \<and> endsWith (trim l') [CHR 0x5C, CHR '']'']
                  \<and> fst (parsePlayerName (slice (trim l') 16 (- 2))) \<noteq> []))
            \<longrightarrow> map_of (properties r) ''PW'' = Some [safeString name])
        \<and> (rank \<noteq> [] \<and> (\<forall>l' \<in> set ms2. \<not> (startsWith (trim l') (CHR 0x5C # ''[GAMEWHITENAME='')
                  \<and> endsWith (trim l') [CHR 0x5C, CHR '']'']
                  \<and> snd (parsePlayerName (slice (trim l') 16 (- 2))) \<noteq> []))
            \<longrightarrow> map_of (properties r) ''WR'' = Some [safeString rank]))"
proof (intro conjI impI)
  assume a: "split (CHR 0x0A) gib = ls1 @ ls2
      \<and> gib_lines ls1 \<lparr>root_props = [], nodes = []\<rparr> = Inr t1
      \<and> key \<in> {''RE'', ''KM'', ''DT''} \<and> map_of (root_props t1) key = Some v
      \<and> parseGib gib = Inr r"
  then obtain t2 where t2: "gib_lines ls2 t1 = Inr t2" and f: "finish (root_props t2) (nodes t2) = Inr r"
    by (auto simp: parseGib_def gib_lines_append split: sum.splits)
  have "map_of (root_props t2) key = Some v"
    using gib_lines_keeps [OF t2] a by blast
  then show "map_of (properties r) key = Some v"
    using properties_finish [OF f] by simp
next
  assume a: "gib_line l t = Inr t'
      \<and> startsWith (trim l) (CHR 0x5C # ''[GAMEBLACKNAME='') \<and> endsWith (trim l) [CHR 0x5C, CHR '']'']
      \<and> parsePlayerName (slice (trim l) 16 (- 2)) = (name, rank) \<and> name \<noteq> []"
  then show "map_of (root_props t') ''PB'' = Some [safeString name]"
    using gib_line_black(1) by blast
  assume "rank \<noteq> []"
  with a show "map_of (root_props t') ''BR'' = Some [safeString rank]"
    using gib_line_black(2) by blast
next
  assume a: "gib_line l t = Inr t'
      \<and> startsWith (trim l) (CHR 0x5C # ''[GAMEWHITENAME='') \<and> endsWith (trim l) [CHR 0x5C, CHR '']'']
      \<and> parsePlayerName (slice (trim l) 16 (- 2)) = (name, rank) \<and> name \<noteq> []"
  then show "map_of (root_props t') ''PW'' = Some [safeString name]"
    using gib_line_white(1) by blast
  assume "rank \<noteq> []"
  with a show "map_of (root_props t') ''WR'' = Some [safeString rank]"
    using gib_line_white(2) by blast
next
  assume a: "split (CHR 0x0A) gib = ms1 @ l # ms2 \<and> parseGib gib = Inr r
      \<and> startsWith (trim l) (CHR 0x5C # ''[GAMEBLACKNAME='') \<and> endsWith (trim l) [CHR 0x5C, CHR '']'']
      \<and> parsePlayerName (slice (trim l) 16 (- 2)) = (name, rank) \<and> name \<noteq> []"
  {
    assume "\<forall>l' \<in> set ms2. \<not> (startsWith (trim l') (CHR 0x5C # ''[GAMEBLACKNAME='')
                  \<and> endsWith (trim l') [CHR 0x5C, CHR '']'']
                  \<and> fst (parsePlayerName (slice (trim l') 16 (- 2))) \<noteq> [])"
    with a show "map_of (properties r) ''PB'' = Some [safeString name]"
      using parseGib_last_black(1) by blast
  }
  {
    assume "rank \<noteq> [] \<and> (\<forall>l' \<in> set ms2. \<not> (startsWith (trim l') (CHR 0x5C # ''[GAMEBLACKNAME='')
                  \<and> endsWith (trim l') [CHR 0x5C, CHR '']'']
                  \<and> snd (parsePlayerName (slice (trim l') 16 (- 2))) \<noteq> []))"
    with a show "map_of (properties r) ''BR'' = Some [safeString rank]"
      using parseGib_last_black(2) by blast
  }
next
  assume a: "split (CHR 0x0A) gib = ms1 @ l # ms2 \<and> parseGib gib = Inr r
      \<and> startsWith (trim l) (CHR 0x5C # ''[GAMEWHITENAME='') \<and> endsWith (trim l) [CHR 0x5C, CHR '']'']
      \<and> parsePlayerName (slice (trim l) 16 (- 2)) = (name, rank) \<and> name \<noteq> []"
  {
    assume "\<forall>l' \<in> set ms2. \<not> (startsWith (trim l') (CHR 0x5C # ''[GAMEWHITENAME='')
                  \<and> endsWith (trim l') [CHR 0x5C, CHR '']'']
                  \<and> fst (parsePlayerName (slice (trim l') 16 (- 2))) \<noteq> [])"
    with a show "map_of (properties r) ''PW'' = Some [safeString name]"
      using parseGib_last_white(1) by blast
  }
  {
    assume "rank \<noteq> [] \<and> (\<forall>l' \<in> set ms2. \<not> (startsWith (trim l') (CHR 0x5C # ''[GAMEWHITENAME='')
                  \<and> endsWith (trim l') [CHR 0x5C, CHR '']'']
                  \<and> snd (parsePlayerName (slice (trim l') 16 (- 2))) \<noteq> []))"
    with a show "map_of (properties r) ''WR'' = Some [safeString rank]"
      using parseGib_last_white(2) by blast
  }
qed

theorem parseGib_assignment_order_witness:
  "split (CHR 0x0A) (CHR 0x5C # ''[GAMETAG=C2016:03:26,\<newline>'' @ CHR 0x5C # ''[GAMETAG=C2020:01:01,\<newline>STO 0 2 1 15 15'') =
     [CHR 0x5C # ''[GAMETAG=C2016:03:26,''] @ [CHR 0x5C # ''[GAMETAG=C2020:01:01,'', ''STO 0 2 1 15 15'']
   \<and> gib_lines [CHR 0x5C # ''[GAMETAG=C2016:03:26,''] \<lparr>root_props = [], nodes = []\<rparr> =
       Inr \<lparr>root_props = [(''DT'', [''2016-03-26''])], nodes = []\<rparr>
   \<and> ''DT'' \<in> {''RE'', ''KM'', ''DT''}
   \<and> map_of (root_props \<lparr>root_props = [(''DT'', [''2016-03-26''])], nodes = []\<rparr>) ''DT'' = Some [''2016-03-26'']
   \<and> parseGib (CHR 0x5C # ''[GAMETAG=C2016:03:26,\<newline>'' @ CHR 0x5C # ''[GAMETAG=C2020:01:01,\<newline>STO 0 2 1 15 15'') =
       Inr (Node [(''DT'', [''2016-03-26''])] [Node [(''B'', [''pp''])] []])
   \<and> map_of (properties (Node [(''DT'', [''2016-03-26''])] [Node [(''B'', [''pp''])] []])) ''DT'' = Some [''2016-03-26'']
   \<and> gib_line (CHR 0x5C # ''[GAMEBLACKNAME=Bob (3k)'' @ [CHR 0x5C] @ '']'')
        \<lparr>root_props = [(''PB'', [''Alice'']), (''BR'', [''5d''])], nodes = []\<rparr> =
       Inr \<lparr>root_props = [(''PB'', [''Bob'']), (''BR'', [''3k''])], nodes = []\<rparr>
   \<and> startsWith (trim (CHR 0x5C # ''[GAMEBLACKNAME=Bob (3k)'' @ [CHR 0x5C] @ '']'')) (CHR 0x5C # ''[GAMEBLACKNAME='')
   \<and> endsWith (trim (CHR 0x5C # ''[GAMEBLACKNAME=Bob (3k)'' @ [CHR 0x5C] @ '']'')) [CHR 0x5C, CHR '']'']
   \<and> parsePlayerName (slice (trim (CHR 0x5C # ''[GAMEBLACKNAME=Bob (3k)'' @ [CHR 0x5C] @ '']'')) 16 (- 2)) = (''Bob'', ''3k'')
   \<and> gib_line (CHR 0x5C # ''[GAMEWHITENAME=Eve (1d)'' @ [CHR 0x5C] @ '']'')
        \<lparr>root_props = [(''PW'', [''Carol'']), (''WR'', [''2d''])], nodes = []\<rparr> =
       Inr \<lparr>root_props = [(''PW'', [''Eve'']), (''WR'', [''1d''])], nodes = []\<rparr>
   \<and> startsWith (trim (CHR 0x5C # ''[GAMEWHITENAME=Eve (1d)'' @ [CHR 0x5C] @ '']'')) (CHR 0x5C # ''[GAMEWHITENAME='')
   \<and> endsWith (trim (CHR 0x5C # ''[GAMEWHITENAME=Eve (1d)'' @ [CHR 0x5C] @ '']'')) [CHR 0x5C, CHR '']'']
   \<and> parsePlayerName (slice (trim (CHR 0x5C # ''[GAMEWHITENAME=Eve (1d)'' @ [CHR 0x5C] @ '']'')) 16 (- 2)) = (''Eve'', ''1d'')
   \<and> split (CHR 0x0A) (CHR 0x5C # ''[GAMEBLACKNAME=Alice (5d)'' @ [CHR 0x5C] @ '']\<newline>'' @ CHR 0x5C # ''[GAMEBLACKNAME=Bob (3k)'' @ [CHR 0x5C] @ '']\<newline>STO 0 2 1 15 15'') =
       [CHR 0x5C # ''[GAMEBLACKNAME=Alice (5d)'' @ [CHR 0x5C] @ '']''] @ (CHR 0x5C # ''[GAMEBLACKNAME=Bob (3k)'' @ [CHR 0x5C] @ '']'') # [''STO 0 2 1 15 15'']
   \<and> parseGib (CHR 0x5C # ''[GAMEBLACKNAME=Alice (5d)'' @ [CHR 0x5C] @ '']\<newline>'' @ CHR 0x5C # ''[GAMEBLACKNAME=Bob (3k)'' @ [CHR 0x5C] @ '']\<newline>STO 0 2 1 15 15'') =
       Inr (Node [(''PB'', [''Bob'']), (''BR'', [''3k''])] [Node [(''B'', [''pp''])] []])
   \<and> \<not> startsWith (trim ''STO 0 2 1 15 15'') (CHR 0x5C # ''[GAMEBLACKNAME='')
   \<and> split (CHR 0x0A) (CHR 0x5C # ''[GAMEWHITENAME=Carol (2d)'' @ [CHR 0x5C] @ '']\<newline>'' @ CHR 0x5C # ''[GAMEWHITENAME=Eve (1d)'' @ [CHR 0x5C] @ '']\<newline>STO 0 2 1 15 15'') =
       [CHR 0x5C # ''[GAMEWHITENAME=Carol (2d)'' @ [CHR 0x5C] @ '']''] @ (CHR 0x5C # ''[GAMEWHITENAME=Eve (1d)'' @ [CHR 0x5C] @ '']'') # [''STO 0 2 1 15 15'']
   \<and> parseGib (CHR 0x5C # ''[GAMEWHITENAME=Carol (2d)'' @ [CHR 0x5C] @ '']\<newline>'' @ CHR 0x5C # ''[GAMEWHITENAME=Eve (1d)'' @ [CHR 0x5C] @ '']\<newline>STO 0 2 1 15 15'') =
       Inr (Node [(''PW'', [''Eve'']), (''WR'', [''1d''])] [Node [(''B'', [''pp''])] []])
   \<and> \<not> startsWith (trim ''STO 0 2 1 15 15'') (CHR 0x5C # ''[GAMEWHITENAME='')
   \<and> map_of (properties (Node [(''PB'', [''Bob'']), (''BR'', [''3k''])] [Node [(''B'', [''pp''])] []])) ''PB'' = Some [''Bob'']
   \<and> map_of (properties (Node [(''PB'', [''Bob'']), (''BR'', [''3k''])] [Node [(''B'', [''pp''])] []])) ''BR'' = Some [''3k'']
   \<and> map_of (properties (Node [(''PW'', [''Eve'']), (''WR'', [''1d''])] [Node [(''B'', [''pp''])] []])) ''PW'' = Some [''Eve'']
   \<and> map_of (properties (Node [(''PW'', [''Eve'']), (''WR'', [''1d''])] [Node [(''B'', [''pp''])] []])) ''WR'' = Some [''1d'']"
proof -
  have s: "split (CHR 0x0A) (CHR 0x5C # ''[GAMETAG=C2016:03:26,\<newline>'' @ CHR 0x5C # ''[GAMETAG=C2020:01:01,\<newline>STO 0 2 1 15 15'') =
     [CHR 0x5C # ''[GAMETAG=C2016:03:26,''] @ [CHR 0x5C # ''[GAMETAG=C2020:01:01,'', ''STO 0 2 1 15 15'']"
    by code_simp
  have g: "gib_lines [CHR 0x5C # ''[GAMETAG=C2016:03:26,''] \<lparr>root_props = [], nodes = []\<rparr> =
       Inr \<lparr>root_props = [(''DT'', [''2016-03-26''])], nodes = []\<rparr>"
    by code_simp
  have p: "parseGib (CHR 0x5C # ''[GAMETAG=C2016:03:26,\<newline>'' @ CHR 0x5C # ''[GAMETAG=C2020:01:01,\<newline>STO 0 2 1 15 15'') =
       Inr (Node [(''DT'', [''2016-03-26''])] [Node [(''B'', [''pp''])] []])"
    by code_simp
  have b1: "gib_line (CHR 0x5C # ''[GAMEBLACKNAME=Bob (3k)'' @ [CHR 0x5C] @ '']'')
        \<lparr>root_props = [(''PB'', [''Alice'']), (''BR'', [''5d''])], nodes = []\<rparr> =
       Inr \<lparr>root_props = [(''PB'', [''Bob'']), (''BR'', [''3k''])], nodes = []\<rparr>"
    by code_simp
  have b2: "startsWith (trim (CHR 0x5C # ''[GAMEBLACKNAME=Bob (3k)'' @ [CHR 0x5C] @ '']'')) (CHR 0x5C # ''[GAMEBLACKNAME='')"
    by code_simp
  have b3: "endsWith (trim (CHR 0x5C # ''[GAMEBLACKNAME=Bob (3k)'' @ [CHR 0x5C] @ '']'')) [CHR 0x5C, CHR '']'']"
    by code_simp
  have b4: "parsePlayerName (slice (trim (CHR 0x5C # ''[GAMEBLACKNAME=Bob (3k)'' @ [CHR 0x5C] @ '']'')) 16 (- 2)) = (''Bob'', ''3k'')"
    by code_simp
  have w1: "gib_line (CHR 0x5C # ''[GAMEWHITENAME=Eve (1d)'' @ [CHR 0x5C] @ '']'')
        \<lparr>root_props = [(''PW'', [''Carol'']), (''WR'', [''2d''])], nodes = []\<rparr> =
       Inr \<lparr>root_props = [(''PW'', [''Eve'']), (''WR'', [''1d''])], nodes = []\<rparr>"
    by code_simp
  have w2: "startsWith (trim (CHR 0x5C # ''[GAMEWHITENAME=Eve (1d)'' @ [CHR 0x5C] @ '']'')) (CHR 0x5C # ''[GAMEWHITENAME='')"
    by code_simp
  have w3: "endsWith (trim (CHR 0x5C # ''[GAMEWHITENAME=Eve (1d)'' @ [CHR 0x5C] @ '']'')) [CHR 0x5C, CHR '']'']"
    by code_simp
  have w4: "parsePlayerName (slice (trim (CHR 0x5C # ''[GAMEWHITENAME=Eve (1d)'' @ [CHR 0x5C] @ '']'')) 16 (- 2)) = (''Eve'', ''1d'')"
    by code_simp
  have sb: "split (CHR 0x0A) (CHR 0x5C # ''[GAMEBLACKNAME=Alice (5d)'' @ [CHR 0x5C] @ '']\<newline>'' @ CHR 0x5C # ''[GAMEBLACKNAME=Bob (3k)'' @ [CHR 0x5C] @ '']\<newline>STO 0 2 1 15 15'') =
       [CHR 0x5C # ''[GAMEBLACKNAME=Alice (5d)'' @ [CHR 0x5C] @ '']''] @ (CHR 0x5C # ''[GAMEBLACKNAME=Bob (3k)'' @ [CHR 0x5C] @ '']'') # [''STO 0 2 1 15 15'']"
    by code_simp
  have pb: "parseGib (CHR 0x5C # ''[GAMEBLACKNAME=Alice (5d)'' @ [CHR 0x5C] @ '']\<newline>'' @ CHR 0x5C # ''[GAMEBLACKNAME=Bob (3k)'' @ [CHR 0x5C] @ '']\<newline>STO 0 2 1 15 15'') =
       Inr (Node [(''PB'', [''Bob'']), (''BR'', [''3k''])] [Node [(''B'', [''pp''])] []])"
    by code_simp
  have nb: "\<not> startsWith (trim ''STO 0 2 1 15 15'') (CHR 0x5C # ''[GAMEBLACKNAME='')"
    by code_simp
  have sw: "split (CHR 0x0A) (CHR 0x5C # ''[GAMEWHITENAME=Carol (2d)'' @ [CHR 0x5C] @ '']\<newline>'' @ CHR 0x5C # ''[GAMEWHITENAME=Eve (1d)'' @ [CHR 0x5C] @ '']\<newline>STO 0 2 1 15 15'') =
       [CHR 0x5C # ''[GAMEWHITENAME=Carol (2d)'' @ [CHR 0x5C] @ '']''] @ (CHR 0x5C # ''[GAMEWHITENAME=Eve (1d)'' @ [CHR 0x5C] @ '']'') # [''STO 0 2 1 15 15'']"
    by code_simp
  have pw: "parseGib (CHR 0x5C # ''[GAMEWHITENAME=Carol (2d)'' @ [CHR 0x5C] @ '']\<newline>'' @ CHR 0x5C # ''[GAMEWHITENAME=Eve (1d)'' @ [CHR 0x5C] @ '']\<newline>STO 0 2 1 15 15'') =
       Inr (Node [(''PW'', [''Eve'']), (''WR'', [''1d''])] [Node [(''B'', [''pp''])] []])"
    by code_simp
  have nw: "\<not> startsWith (trim ''STO 0 2 1 15 15'') (CHR 0x5C # ''[GAMEWHITENAME='')"
    by code_simp
  show ?thesis
    using parseGib_assignment_order
        [where gib = "CHR 0x5C # ''[GAMETAG=C2016:03:26,\<newline>'' @ CHR 0x5C # ''[GAMETAG=C2020:01:01,\<newline>STO 0 2 1 15 15''"
         and ?ls1.0 = "[CHR 0x5C # ''[GAMETAG=C2016:03:26,'']"
         and ?ls2.0 = "[CHR 0x5C # ''[GAMETAG=C2020:01:01,'', ''STO 0 2 1 15 15'']"
         and ?t1.0 = "\<lparr>root_props = [(''DT'', [''2016-03-26''])], nodes = []\<rparr>"
         and key = "''DT''" and v = "[''2016-03-26'']"
         and r = "Node [(''DT'', [''2016-03-26''])] [Node [(''B'', [''pp''])] []]"
         and l = "CHR 0x5C # ''[GAMEBLACKNAME=Bob (3k)'' @ [CHR 0x5C] @ '']''"
         and t = "\<lparr>root_props = [(''PB'', [''Alice'']), (''BR'', [''5d''])], nodes = []\<rparr>"
         and t' = "\<lparr>root_props = [(''PB'', [''Bob'']), (''BR'', [''3k''])], nodes = []\<rparr>"
         and name = "''Bob''" and rank = "''3k''"]
      parseGib_assignment_order
        [where l = "CHR 0x5C # ''[GAMEWHITENAME=Eve (1d)'' @ [CHR 0x5C] @ '']''"
         and t = "\<lparr>root_props = [(''PW'', [''Carol'']), (''WR'', [''2d''])], nodes = []\<rparr>"
         and t' = "\<lparr>root_props = [(''PW'', [''Eve'']), (''WR'', [''1d''])], nodes = []\<rparr>"
         and name = "''Eve''" and rank = "''1d''"]
      parseGib_assignment_order
        [where gib = "CHR 0x5C # ''[GAMEBLACKNAME=Alice (5d)'' @ [CHR 0x5C] @ '']\<newline>'' @ CHR 0x5C # ''[GAMEBLACKNAME=Bob (3k)'' @ [CHR 0x5C] @ '']\<newline>STO 0 2 1 15 15''"
         and ?ms1.0 = "[CHR 0x5C # ''[GAMEBLACKNAME=Alice (5d)'' @ [CHR 0x5C] @ '']'']"
         and l = "CHR 0x5C # ''[GAMEBLACKNAME=Bob (3k)'' @ [CHR 0x5C] @ '']''"
         and ?ms2.0 = "[''STO 0 2 1 15 15'']"
         and r = "Node [(''PB'', [''Bob'']), (''BR'', [''3k''])] [Node [(''B'', [''pp''])] []]"
         and name = "''Bob''" and rank = "''3k''"]
      parseGib_assignment_order
        [where gib = "CHR 0x5C # ''[GAMEWHITENAME=Carol (2d)'' @ [CHR 0x5C] @ '']\<newline>'' @ CHR 0x5C # ''[GAMEWHITENAME=Eve (1d)'' @ [CHR 0x5C] @ '']\<newline>STO 0 2 1 15 15''"
         and ?ms1.0 = "[CHR 0x5C # ''[GAMEWHITENAME=Carol (2d)'' @ [CHR 0x5C] @ '']'']"
         and l = "CHR 0x5C # ''[GAMEWHITENAME=Eve (1d)'' @ [CHR 0x5C] @ '']''"
         and ?ms2.0 = "[''STO 0 2 1 15 15'']"
         and r = "Node [(''PW'', [''Eve'']), (''WR'', [''1d''])] [Node [(''B'', [''pp''])] []]"
         and name = "''Eve''" and rank = "''1d''"]
      s g p b1 b2 b3 b4 w1 w2 w3 w4 sb pb nb sw pw nw
    by simp
qed

text \<open>
  C8 as stated fails for the player name and rank: of two lines that set the black player,
  the second one is stored.
\<close>

theorem parseGib_last_name_wins:
  "parseGib (CHR 0x5C # ''[GAMEBLACKNAME=Alice (5d)'' @ [CHR 0x5C] @ '']\<newline>''
             @ CHR 0x5C # ''[GAMEBLACKNAME=Bob (3k)'' @ [CHR 0x5C] @ '']\<newline>STO 0 2 1 15 15'') =
     Inr (Node [(''PB'', [''Bob'']), (''BR'', [''3k''])] [Node [(''B'', [''pp''])] []])"
  by code_simp


end
